theory Spec2Isabelle
  imports Complex_Main
begin

section \<open>Errors and results\<close>

text \<open>
  Every exception the notebook's code can raise is a value.  A Python string is the list of
  its Unicode code points.
\<close>

type_synonym ustr = "nat list"

datatype error =
    KeyError ustr
  | KeyErrorId nat
  | IndexError
  | TypeError
  | ValueError
  | InvalidArgumentError
  | ZeroDivisionError

definition and_then :: "error + 'a \<Rightarrow> ('a \<Rightarrow> error + 'b) \<Rightarrow> error + 'b" where
  "and_then r f = (case r of Inl e \<Rightarrow> Inl e | Inr x \<Rightarrow> f x)"

section \<open>Tensors and the framework primitives the notebook calls\<close>

text \<open>
  A tensor is its static shape together with the element stored at every index below the
  shape (an index is the list of coordinates, outermost axis first).  Elements are exact
  reals for float tensors and naturals for token-id tensors.
\<close>

record 'a tensor =
  shape :: "nat list"
  el :: "nat list \<Rightarrow> 'a"

text \<open>\<open>tf.expand_dims(t, axis)\<close> for a non-negative axis.\<close>

definition expand_dims :: "'a tensor \<Rightarrow> nat \<Rightarrow> error + 'a tensor" where
  "expand_dims t axis =
     (if axis > length (shape t) then Inl InvalidArgumentError
      else Inr \<lparr>shape = take axis (shape t) @ [1] @ drop axis (shape t),
                el = (\<lambda>idx. el t (take axis idx @ drop (Suc axis) idx))\<rparr>)"

text \<open>
  Broadcasting of two shapes: the shapes are aligned at the last axis, and two sizes are
  compatible when they are equal or one of them is 1.
\<close>

fun bdims :: "nat list \<Rightarrow> nat list \<Rightarrow> nat list option" where
  "bdims [] ys = Some ys"
| "bdims (x # xs) [] = Some (x # xs)"
| "bdims (x # xs) (y # ys) =
     (case bdims xs ys of
        None \<Rightarrow> None
      | Some zs \<Rightarrow>
          if x = y then Some (x # zs)
          else if x = 1 then Some (y # zs)
          else if y = 1 then Some (x # zs)
          else None)"

definition broadcast_shape :: "nat list \<Rightarrow> nat list \<Rightarrow> nat list option" where
  "broadcast_shape s1 s2 = map_option rev (bdims (rev s1) (rev s2))"

text \<open>The index of an operand of shape \<open>s\<close> that feeds index \<open>idx\<close> of the broadcast result.\<close>

definition bidx :: "nat list \<Rightarrow> nat list \<Rightarrow> nat list" where
  "bidx s idx = map2 (\<lambda>d i. if d = 1 then 0 else i) s (drop (length idx - length s) idx)"

definition broadcast_op :: "('a \<Rightarrow> 'a \<Rightarrow> 'a) \<Rightarrow> 'a tensor \<Rightarrow> 'a tensor \<Rightarrow> error + 'a tensor" where
  "broadcast_op f a b =
     (case broadcast_shape (shape a) (shape b) of
        None \<Rightarrow> Inl InvalidArgumentError
      | Some sh \<Rightarrow>
          Inr \<lparr>shape = sh,
               el = (\<lambda>idx. f (el a (bidx (shape a) idx)) (el b (bidx (shape b) idx)))\<rparr>)"

definition add :: "real tensor \<Rightarrow> real tensor \<Rightarrow> error + real tensor" where
  "add = broadcast_op (+)"

definition mul :: "real tensor \<Rightarrow> real tensor \<Rightarrow> error + real tensor" where
  "mul = broadcast_op (*)"

text \<open>\<open>tf.nn.tanh\<close>, elementwise.\<close>

definition tanh_t :: "real tensor \<Rightarrow> real tensor" where
  "tanh_t t = \<lparr>shape = shape t, el = (\<lambda>idx. tanh (el t idx))\<rparr>"

text \<open>
  \<open>tf.nn.softmax(t, axis)\<close>: the exponential of each element divided by the sum of the
  exponentials along \<open>axis\<close>.
\<close>

definition softmax :: "real tensor \<Rightarrow> nat \<Rightarrow> error + real tensor" where
  "softmax t axis =
     (if axis \<ge> length (shape t) then Inl InvalidArgumentError
      else Inr \<lparr>shape = shape t,
                el = (\<lambda>idx. exp (el t idx) /
                        (\<Sum>j<shape t ! axis. exp (el t (idx[axis := j]))))\<rparr>)"

text \<open>\<open>tf.reduce_sum(t, axis)\<close>: the axis disappears from the shape.\<close>

definition reduce_sum :: "real tensor \<Rightarrow> nat \<Rightarrow> error + real tensor" where
  "reduce_sum t axis =
     (if axis \<ge> length (shape t) then Inl InvalidArgumentError
      else Inr \<lparr>shape = take axis (shape t) @ drop (Suc axis) (shape t),
                el = (\<lambda>idx. \<Sum>j<shape t ! axis. el t (take axis idx @ [j] @ drop axis idx))\<rparr>)"

text \<open>
  A built \<open>tf.keras.layers.Dense(units)\<close> layer without activation: a kernel of shape
  \<open>(in_dim, units)\<close> and a bias of shape \<open>(units)\<close>, applied along the last axis of its
  input.  The layer wants at least two axes, the last of size \<open>in_dim\<close>.
\<close>

record dense =
  in_dim :: nat
  units :: nat
  kernel :: "nat \<Rightarrow> nat \<Rightarrow> real"
  bias :: "nat \<Rightarrow> real"

definition dense_call :: "dense \<Rightarrow> real tensor \<Rightarrow> error + real tensor" where
  "dense_call d x =
     (if length (shape x) < 2 \<or> last (shape x) \<noteq> in_dim d then Inl InvalidArgumentError
      else Inr \<lparr>shape = butlast (shape x) @ [units d],
                el = (\<lambda>idx. (\<Sum>i<in_dim d. el x (butlast idx @ [i]) * kernel d i (last idx))
                             + bias d (last idx))\<rparr>)"

section \<open>BahdanauAttention\<close>

text \<open>
  \<open>BahdanauAttention(units)\<close> holds \<open>W1 = Dense(units)\<close>, \<open>W2 = Dense(units)\<close> and
  \<open>V = Dense(1)\<close>.
\<close>

record BahdanauAttention =
  W1 :: dense
  W2 :: dense
  V :: dense

definition BahdanauAttention_call :: "BahdanauAttention \<Rightarrow> real tensor \<Rightarrow> real tensor
    \<Rightarrow> error + (real tensor \<times> real tensor)" where
  "BahdanauAttention_call self query values =
     and_then (expand_dims query 1) (\<lambda>query_with_time_axis.
     and_then (dense_call (W1 self) query_with_time_axis) (\<lambda>w1q.
     and_then (dense_call (W2 self) values) (\<lambda>w2v.
     and_then (add w1q w2v) (\<lambda>s.
     and_then (dense_call (V self) (tanh_t s)) (\<lambda>score.
     and_then (softmax score 1) (\<lambda>attention_weights.
     and_then (mul attention_weights values) (\<lambda>context_vector.
     and_then (reduce_sum context_vector 1) (\<lambda>context_vector.
     Inr (context_vector, attention_weights)))))))))"

text \<open>
  The textbook formula, position by position: a dense layer on one vector, the score of
  encoder position \<open>t\<close> for batch element \<open>b\<close>, its softmax weight over the time axis, and
  the weighted sum of the values.
\<close>

definition dense_vec :: "dense \<Rightarrow> (nat \<Rightarrow> real) \<Rightarrow> nat \<Rightarrow> real" where
  "dense_vec d x j = (\<Sum>i<in_dim d. x i * kernel d i j) + bias d j"

definition textbook_score :: "BahdanauAttention \<Rightarrow> real tensor \<Rightarrow> real tensor
    \<Rightarrow> nat \<Rightarrow> nat \<Rightarrow> real" where
  "textbook_score self query values b t =
     dense_vec (V self)
       (\<lambda>u. tanh (dense_vec (W1 self) (\<lambda>i. el query [b, i]) u
                  + dense_vec (W2 self) (\<lambda>i. el values [b, t, i]) u)) 0"

definition textbook_weight :: "BahdanauAttention \<Rightarrow> real tensor \<Rightarrow> real tensor
    \<Rightarrow> nat \<Rightarrow> nat \<Rightarrow> real" where
  "textbook_weight self query values b t =
     exp (textbook_score self query values b t) /
       (\<Sum>s<shape values ! 1. exp (textbook_score self query values b s))"

definition textbook_context :: "BahdanauAttention \<Rightarrow> real tensor \<Rightarrow> real tensor
    \<Rightarrow> nat \<Rightarrow> nat \<Rightarrow> real" where
  "textbook_context self query values b h =
     (\<Sum>t<shape values ! 1. textbook_weight self query values b t * el values [b, t, h])"

text \<open>
  The layers of an attention object that has been built for hidden size \<open>H\<close> with \<open>U\<close>
  units.
\<close>

definition built :: "BahdanauAttention \<Rightarrow> nat \<Rightarrow> nat \<Rightarrow> bool" where
  "built self H U \<longleftrightarrow>
     in_dim (W1 self) = H \<and> units (W1 self) = U \<and>
     in_dim (W2 self) = H \<and> units (W2 self) = U \<and>
     in_dim (V self) = U \<and> units (V self) = 1"

text \<open>A dense layer whose kernel and bias are zero, for concrete evaluations.\<close>

definition zero_dense :: "nat \<Rightarrow> nat \<Rightarrow> dense" where
  "zero_dense n u = \<lparr>in_dim = n, units = u, kernel = (\<lambda>i j. 0), bias = (\<lambda>j. 0)\<rparr>"

section \<open>The loss\<close>

text \<open>Every index below a shape, in row-major order.\<close>

fun indices :: "nat list \<Rightarrow> nat list list" where
  "indices [] = [[]]"
| "indices (n # ns) = concat (map (\<lambda>i. map ((#) i) (indices ns)) [0..<n])"

text \<open>\<open>tf.math.equal(t, c)\<close> against a scalar, \<open>tf.math.logical_not\<close> and the cast of a
  boolean tensor to floats.\<close>

definition equal_scalar :: "nat tensor \<Rightarrow> nat \<Rightarrow> bool tensor" where
  "equal_scalar t c = \<lparr>shape = shape t, el = (\<lambda>idx. el t idx = c)\<rparr>"

definition logical_not :: "bool tensor \<Rightarrow> bool tensor" where
  "logical_not t = \<lparr>shape = shape t, el = (\<lambda>idx. \<not> el t idx)\<rparr>"

definition cast_float :: "bool tensor \<Rightarrow> real tensor" where
  "cast_float t = \<lparr>shape = shape t, el = (\<lambda>idx. if el t idx then 1 else 0)\<rparr>"

text \<open>
  \<open>tf.reduce_mean(t)\<close> over all axes: a scalar tensor.  The mean of a tensor without
  elements is NaN in the framework, which exact reals do not have; the value of the model
  there carries no meaning, and nothing below is stated for it.
\<close>

definition reduce_mean :: "real tensor \<Rightarrow> real tensor" where
  "reduce_mean t =
     \<lparr>shape = [],
      el = (\<lambda>idx. (\<Sum>i\<leftarrow>indices (shape t). el t i) / real (length (indices (shape t))))\<rparr>"

text \<open>
  \<open>loss_function\<close>.  The global \<open>loss_object\<close> is the framework's
  \<open>SparseCategoricalCrossentropy(from_logits=True, reduction='none')\<close>; it is taken as
  given: it maps the labels and the logits to the tensor of per-position losses, or raises.
\<close>

definition loss_function ::
  "(nat tensor \<Rightarrow> real tensor \<Rightarrow> error + real tensor) \<Rightarrow> nat tensor \<Rightarrow> real tensor
     \<Rightarrow> error + real tensor" where
  "loss_function loss_object real' pred =
     (let mask = logical_not (equal_scalar real' 0) in
      and_then (loss_object real' pred) (\<lambda>loss'.
      let mask = cast_float mask in
      and_then (mul loss' mask) (\<lambda>loss'.
      Inr (reduce_mean loss'))))"

section \<open>Decoder\<close>

text \<open>
  A built \<open>tf.keras.layers.Embedding(vocab_size, embedding_dim)\<close>: a table with one row of
  \<open>output_dim\<close> floats per token id below \<open>input_dim\<close>.  An id outside the table is
  rejected (as the lookup does on a CPU).
\<close>

record Embedding =
  input_dim :: nat
  output_dim :: nat
  embeddings :: "nat \<Rightarrow> nat \<Rightarrow> real"

definition Embedding_call :: "Embedding \<Rightarrow> nat tensor \<Rightarrow> error + real tensor" where
  "Embedding_call e x =
     (if \<exists>idx \<in> set (indices (shape x)). el x idx \<ge> input_dim e then Inl InvalidArgumentError
      else Inr \<lparr>shape = shape x @ [output_dim e],
                el = (\<lambda>idx. embeddings e (el x (butlast idx)) (last idx))\<rparr>)"

text \<open>\<open>tf.concat([a, b], axis=-1)\<close>: all axes but the last must agree.\<close>

definition concat_last :: "real tensor \<Rightarrow> real tensor \<Rightarrow> error + real tensor" where
  "concat_last a b =
     (if shape a = [] \<or> shape b = [] \<or> butlast (shape a) \<noteq> butlast (shape b)
      then Inl InvalidArgumentError
      else Inr \<lparr>shape = butlast (shape a) @ [last (shape a) + last (shape b)],
                el = (\<lambda>idx. if last idx < last (shape a) then el a idx
                           else el b (butlast idx @ [last idx - last (shape a)]))\<rparr>)"

text \<open>The index below shape \<open>sh\<close> of the \<open>n\<close>-th element in row-major order.\<close>

fun unravel :: "nat list \<Rightarrow> nat \<Rightarrow> nat list" where
  "unravel [] n = []"
| "unravel (d # ds) n = (n div prod_list ds) # unravel ds (n mod prod_list ds)"

text \<open>
  \<open>tf.reshape(t, (-1, t.shape[2]))\<close>: the elements in row-major order, regrouped in rows of
  \<open>t.shape[2]\<close>.  Reading \<open>t.shape[2]\<close> needs three axes.  For a row length of 0 the
  result is the empty tensor whose number of rows is the product of the sizes of \<open>t\<close> that
  are not 0 (the operation leaves the sizes 0 out when it infers the size -1).
\<close>

definition reshape_rows :: "real tensor \<Rightarrow> error + real tensor" where
  "reshape_rows t =
     (if length (shape t) < 3 then Inl IndexError
      else let d = shape t ! 2 in
        if d = 0 then Inr \<lparr>shape = [prod_list (filter (\<lambda>k. 0 < k) (shape t)), 0],
                             el = (\<lambda>idx. 0)\<rparr>
        else if prod_list (shape t) mod d \<noteq> 0 then Inl InvalidArgumentError
        else Inr \<lparr>shape = [prod_list (shape t) div d, d],
                  el = (\<lambda>idx. el t (unravel (shape t) (idx ! 0 * d + idx ! 1)))\<rparr>)"

text \<open>
  \<open>Decoder\<close>.  The GRU layer (\<open>return_sequences=True, return_state=True\<close>) is the
  framework's; it is taken as given: it maps its input to the pair of its output sequence and
  its final state, or raises.  The call passes it no initial state.
\<close>

record Decoder =
  batch_sz :: nat
  dec_units :: nat
  embedding :: Embedding
  gru :: "real tensor \<Rightarrow> error + (real tensor \<times> real tensor)"
  fc :: dense
  attention :: BahdanauAttention

definition Decoder_call :: "Decoder \<Rightarrow> nat tensor \<Rightarrow> real tensor \<Rightarrow> real tensor
    \<Rightarrow> error + (real tensor \<times> real tensor \<times> real tensor)" where
  "Decoder_call self x hidden enc_output =
     and_then (BahdanauAttention_call (attention self) hidden enc_output) (\<lambda>(context_vector, attention_weights).
     and_then (Embedding_call (embedding self) x) (\<lambda>x.
     and_then (expand_dims context_vector 1) (\<lambda>context_vector1.
     and_then (concat_last context_vector1 x) (\<lambda>x.
     and_then (gru self x) (\<lambda>(output, state).
     and_then (reshape_rows output) (\<lambda>output.
     and_then (dense_call (fc self) output) (\<lambda>x.
     Inr (x, state, attention_weights))))))))"


text \<open>An attention layer whose kernels and biases are zero, for concrete evaluations.\<close>

definition zero_attention :: "nat \<Rightarrow> nat \<Rightarrow> BahdanauAttention" where
  "zero_attention H U = \<lparr>W1 = zero_dense H U, W2 = zero_dense H U, V = zero_dense U 1\<rparr>"

section \<open>Text preprocessing\<close>

text \<open>The code points of an ASCII literal.\<close>

definition codes :: "string \<Rightarrow> ustr" where
  "codes s = map of_char s"

text \<open>
  The Unicode tables behind \<open>str.lower\<close>, \<open>unicodedata.normalize('NFD', _)\<close> and
  \<open>unicodedata.category(_) == 'Mn'\<close> belong to the Python runtime; they are taken as given.
\<close>

record unicode_tables =
  lower :: "ustr \<Rightarrow> ustr"
  normalize_NFD :: "ustr \<Rightarrow> ustr"
  category_Mn :: "nat \<Rightarrow> bool"

text \<open>Tables that agree with Python's on ASCII text, for concrete evaluations.\<close>

definition ascii_tables :: unicode_tables where
  "ascii_tables =
     \<lparr>lower = map (\<lambda>c. if 65 \<le> c \<and> c \<le> 90 then c + 32 else c),
      normalize_NFD = (\<lambda>s. s),
      category_Mn = (\<lambda>c. False)\<rparr>"

definition unicode_to_ascii :: "unicode_tables \<Rightarrow> ustr \<Rightarrow> ustr" where
  "unicode_to_ascii db s = filter (\<lambda>c. \<not> category_Mn db c) (normalize_NFD db s)"

text \<open>The code points that \<open>str.strip()\<close> removes from both ends (those of \<open>str.isspace\<close>).\<close>

definition is_space :: "nat \<Rightarrow> bool" where
  "is_space c \<longleftrightarrow>
     c \<in> set [9, 10, 11, 12, 13, 28, 29, 30, 31, 32, 133, 160, 5760, 8192, 8193, 8194, 8195,
              8196, 8197, 8198, 8199, 8200, 8201, 8202, 8232, 8233, 8239, 8287, 12288]"

definition strip :: "ustr \<Rightarrow> ustr" where
  "strip s = rev (dropWhile is_space (rev (dropWhile is_space s)))"

text \<open>The class \<open>[?.!,\<questiondown>]\<close>.\<close>

definition punct :: "nat \<Rightarrow> bool" where
  "punct c \<longleftrightarrow> c = 63 \<or> c = 46 \<or> c = 33 \<or> c = 44 \<or> c = 191"

text \<open>\<open>re.sub(r"([?.!,\<questiondown>])", r" \1 ", w)\<close>\<close>

definition pad_punct :: "ustr \<Rightarrow> ustr" where
  "pad_punct w = concat (map (\<lambda>c. if punct c then [32, c, 32] else [c]) w)"

text \<open>
  \<open>re.sub(r"[...]+", " ", w)\<close> for a character class \<open>P\<close>: every maximal run of characters
  of the class becomes one space.
\<close>

function sub_runs :: "(nat \<Rightarrow> bool) \<Rightarrow> ustr \<Rightarrow> ustr" where
  "sub_runs P [] = []"
| "sub_runs P (c # cs) =
     (if P c then 32 # sub_runs P (dropWhile P cs) else c # sub_runs P cs)"
  by pat_completeness auto
termination
  by (relation "measure (\<lambda>(P, s). length s)") (auto simp: length_dropWhile_le less_Suc_eq_le)

text \<open>The class \<open>[" "]\<close>: a double quote or a space.\<close>

definition quote_or_space :: "nat \<Rightarrow> bool" where
  "quote_or_space c \<longleftrightarrow> c = 34 \<or> c = 32"

text \<open>The class \<open>[a-zA-Z?.!,\<questiondown>]\<close>, whose complement the last pass replaces.\<close>

definition ascii_lower :: "nat \<Rightarrow> bool" where
  "ascii_lower c \<longleftrightarrow> 97 \<le> c \<and> c \<le> 122"

definition ascii_upper :: "nat \<Rightarrow> bool" where
  "ascii_upper c \<longleftrightarrow> 65 \<le> c \<and> c \<le> 90"

definition kept :: "nat \<Rightarrow> bool" where
  "kept c \<longleftrightarrow> ascii_lower c \<or> ascii_upper c \<or> punct c"

text \<open>
  The tables of a Python runtime.  Whatever the version of its Unicode database, a lowercased
  string holds no character whose canonical decomposition has an ASCII capital letter in it:
  the capitals themselves, the accented capitals and the letter-like signs that decompose to a
  capital (the Kelvin sign, the Angstrom sign) all have a lowercase mapping, and no lowercase
  mapping gives such a character.  The type \<open>python_tables\<close> holds the tables with this
  property.
\<close>

typedef python_tables =
  "{db :: unicode_tables.
      \<forall>s t. set t \<subseteq> set (lower db s) \<longrightarrow> (\<forall>c\<in>set (normalize_NFD db t). \<not> ascii_upper c)}"
  morphisms tables_of Abs_python_tables
  by (rule exI [of _ ascii_tables]) (auto simp: ascii_tables_def ascii_upper_def)

setup_lifting type_definition_python_tables

lift_definition ascii_python :: python_tables is ascii_tables
  by (auto simp: ascii_tables_def ascii_upper_def)

definition START :: ustr where
  "START = codes ''<start>''"

definition END :: ustr where
  "END = codes ''<end>''"

definition preprocess_sentence :: "unicode_tables \<Rightarrow> ustr \<Rightarrow> ustr" where
  "preprocess_sentence db w =
     (let w = unicode_to_ascii db (strip (lower db w));
          w = pad_punct w;
          w = sub_runs quote_or_space w;
          w = sub_runs (\<lambda>c. \<not> kept c) w;
          w = strip w
      in START @ [32] @ w @ [32] @ END)"

text \<open>
  The passes in the order in which the specification lists them: lowercase and strip, remove
  the accents, put spaces around the punctuation, replace every maximal run of other
  characters by one space, collapse repeated spaces, strip, add the two tokens.
\<close>

definition preprocess_as_specified :: "unicode_tables \<Rightarrow> ustr \<Rightarrow> ustr" where
  "preprocess_as_specified db w =
     (let w = strip (lower db w);
          w = unicode_to_ascii db w;
          w = pad_punct w;
          w = sub_runs (\<lambda>c. \<not> kept c) w;
          w = sub_runs (\<lambda>c. c = 32) w;
          w = strip w
      in START @ [32] @ w @ [32] @ END)"

text \<open>Two spaces next to each other somewhere in a string.\<close>

fun adjacent_spaces :: "ustr \<Rightarrow> bool" where
  "adjacent_spaces [] = False"
| "adjacent_spaces [c] = False"
| "adjacent_spaces (a # b # cs) = (a = 32 \<and> b = 32 \<or> adjacent_spaces (b # cs))"

text \<open>Every character of the class is a space and is followed by a character outside it.\<close>

fun isolated :: "(nat \<Rightarrow> bool) \<Rightarrow> ustr \<Rightarrow> bool" where
  "isolated P [] = True"
| "isolated P [c] = (P c \<longrightarrow> c = 32)"
| "isolated P (a # b # cs) = ((P a \<longrightarrow> a = 32 \<and> \<not> P b) \<and> isolated P (b # cs))"

section \<open>The notebook's global state\<close>

text \<open>
  The global names the training and translation cells use.  The encoder and the decoder are
  called as functions of the current values of their trainable variables; in the notebook
  they are instances of \<open>Encoder\<close> and \<open>Decoder\<close>.  The loss object, the gradient tape and
  the optimizer are the framework's and are taken as given: \<open>tape_gradient f vs\<close> stands for
  the gradients, one per variable, of the computation \<open>f\<close> recorded on the tape at the
  variable values \<open>vs\<close>.  \<open>global_units\<close> is the notebook's \<open>units\<close>, and \<open>tables\<close> are
  the Unicode tables of the Python runtime.
\<close>

record ('v, 'g, 'o) notebook =
  encoder :: "'v list \<Rightarrow> nat tensor \<Rightarrow> real tensor \<Rightarrow> error + (real tensor \<times> real tensor)"
  decoder :: "'v list \<Rightarrow> nat tensor \<Rightarrow> real tensor \<Rightarrow> real tensor
                \<Rightarrow> error + (real tensor \<times> real tensor \<times> real tensor)"
  loss_object :: "nat tensor \<Rightarrow> real tensor \<Rightarrow> error + real tensor"
  tape_gradient :: "('v list \<Rightarrow> error + real) \<Rightarrow> 'v list \<Rightarrow> error + 'g list"
  apply_gradients :: "'o \<Rightarrow> ('g \<times> 'v) list \<Rightarrow> error + ('o \<times> 'v list)"
  inp_lang_word_index :: "ustr \<rightharpoonup> nat"
  targ_lang_word_index :: "ustr \<rightharpoonup> nat"
  targ_lang_index_word :: "nat \<rightharpoonup> ustr"
  BATCH_SIZE :: nat
  global_units :: nat
  max_length_targ :: nat
  max_length_inp :: nat
  tables :: unicode_tables

text \<open>What a training step changes: the variables of the two models and the optimizer.\<close>

record ('v, 'o) variables =
  encoder_trainable_variables :: "'v list"
  decoder_trainable_variables :: "'v list"
  optimizer :: 'o

text \<open>
  The Python value of \<open>loss\<close>: the integer it starts as, a float, or a scalar tensor (given by
  its value).
\<close>

datatype pynum = PyInt int | PyFloat real | TfScalar real

definition py_value :: "pynum \<Rightarrow> real" where
  "py_value x = (case x of PyInt i \<Rightarrow> of_int i | PyFloat r \<Rightarrow> r | TfScalar r \<Rightarrow> r)"

text \<open>\<open>loss += l\<close> for the scalar tensor \<open>l\<close> that \<open>loss_function\<close> returns: the sum is a
  scalar tensor.\<close>

definition add_tensor :: "pynum \<Rightarrow> real tensor \<Rightarrow> pynum" where
  "add_tensor x l = TfScalar (py_value x + el l [])"

text \<open>
  \<open>loss / int(n)\<close>.  A Python integer divided by 0 raises; \<open>loss\<close> is a tensor only after a
  decode step, and then \<open>n\<close> is at least 2.
\<close>

definition div_int :: "pynum \<Rightarrow> nat \<Rightarrow> error + pynum" where
  "div_int x n =
     (case x of
        PyInt i \<Rightarrow> if n = 0 then Inl ZeroDivisionError else Inr (PyFloat (of_int i / real n))
      | PyFloat r \<Rightarrow> if n = 0 then Inl ZeroDivisionError else Inr (PyFloat (r / real n))
      | TfScalar r \<Rightarrow> Inr (TfScalar (r / real n)))"

text \<open>A one-axis tensor from a Python list, and \<open>t[:, j]\<close>.\<close>

definition tensor_of_list :: "nat list \<Rightarrow> nat tensor" where
  "tensor_of_list xs =
     \<lparr>shape = [length xs],
      el = (\<lambda>idx. case idx of [i] \<Rightarrow> if i < length xs then xs ! i else 0 | _ \<Rightarrow> 0)\<rparr>"

definition slice_column :: "'a tensor \<Rightarrow> nat \<Rightarrow> error + 'a tensor" where
  "slice_column t j =
     (if length (shape t) < 2 then Inl IndexError
      else if j \<ge> shape t ! 1 then Inl InvalidArgumentError
      else Inr \<lparr>shape = hd (shape t) # drop 2 (shape t),
                el = (\<lambda>idx. el t (hd idx # j # tl idx))\<rparr>)"

text \<open>A \<open>for\<close> loop without \<open>break\<close>: the body runs for each element in turn, from the state
  the previous run left, until one raises.\<close>

fun for_each :: "('i \<Rightarrow> 's \<Rightarrow> error + 's) \<Rightarrow> 'i list \<Rightarrow> 's \<Rightarrow> error + 's" where
  "for_each body [] s = Inr s"
| "for_each body (i # is) s = and_then (body i s) (for_each body is)"

section \<open>train_step\<close>

text \<open>The variables the teacher-forcing loop assigns.\<close>

record loop_state =
  loss :: pynum
  dec_hidden :: "real tensor"
  dec_input :: "nat tensor"

definition train_step_body ::
  "('v, 'g, 'o) notebook \<Rightarrow> 'v list \<Rightarrow> nat tensor \<Rightarrow> real tensor \<Rightarrow> nat \<Rightarrow> loop_state
     \<Rightarrow> error + loop_state" where
  "train_step_body nb dv targ enc_output t st =
     and_then (decoder nb dv (dec_input st) (dec_hidden st) enc_output)
       (\<lambda>(predictions, dec_hidden', _).
     and_then (slice_column targ t) (\<lambda>targ_t.
     and_then (loss_function (loss_object nb) targ_t predictions) (\<lambda>l.
     let loss' = add_tensor (loss st) l in
     and_then (slice_column targ t) (\<lambda>targ_t.
     and_then (expand_dims targ_t 1) (\<lambda>dec_input'.
     Inr \<lparr>loss = loss', dec_hidden = dec_hidden', dec_input = dec_input'\<rparr>)))))"

text \<open>The block under \<open>with tf.GradientTape() as tape\<close>, for given variable values.\<close>

definition taped :: "('v, 'g, 'o) notebook \<Rightarrow> 'v list \<Rightarrow> 'v list \<Rightarrow> nat tensor \<Rightarrow> nat tensor
    \<Rightarrow> real tensor \<Rightarrow> error + loop_state" where
  "taped nb ev dv inp targ enc_hidden =
     and_then (encoder nb ev inp enc_hidden) (\<lambda>(enc_output, enc_hidden).
     let dec_hidden = enc_hidden in
     (case targ_lang_word_index nb START of
        None \<Rightarrow> Inl (KeyError START)
      | Some start \<Rightarrow>
     and_then (expand_dims (tensor_of_list (replicate (BATCH_SIZE nb) start)) 1) (\<lambda>dec_input.
     if length (shape targ) < 2 then Inl IndexError
     else for_each (train_step_body nb dv targ enc_output) [1..<shape targ ! 1]
            \<lparr>loss = PyInt 0, dec_hidden = dec_hidden, dec_input = dec_input\<rparr>)))"

text \<open>
  The value the tape differentiates, as a function of the list \<open>variables\<close>.  The tape needs
  a tensor as target: \<open>loss\<close> is one only after a decode step.
\<close>

definition taped_loss :: "('v, 'g, 'o) notebook \<Rightarrow> nat \<Rightarrow> nat tensor \<Rightarrow> nat tensor \<Rightarrow> real tensor
    \<Rightarrow> 'v list \<Rightarrow> error + real" where
  "taped_loss nb n inp targ enc_hidden vs =
     and_then (taped nb (take n vs) (drop n vs) inp targ enc_hidden) (\<lambda>final.
     case loss final of TfScalar r \<Rightarrow> Inr r | _ \<Rightarrow> Inl TypeError)"

definition train_step :: "('v, 'g, 'o) notebook \<Rightarrow> ('v, 'o) variables \<Rightarrow> nat tensor \<Rightarrow> nat tensor
    \<Rightarrow> real tensor \<Rightarrow> error + (pynum \<times> ('v, 'o) variables)" where
  "train_step nb vars inp targ enc_hidden =
     and_then (taped nb (encoder_trainable_variables vars) (decoder_trainable_variables vars)
                 inp targ enc_hidden) (\<lambda>final.
     and_then (div_int (loss final) (shape targ ! 1)) (\<lambda>batch_loss.
     let n = length (encoder_trainable_variables vars);
         variables = encoder_trainable_variables vars @ decoder_trainable_variables vars in
     and_then (case loss final of
                 TfScalar r \<Rightarrow> tape_gradient nb (taped_loss nb n inp targ enc_hidden) variables
               | _ \<Rightarrow> Inl TypeError) (\<lambda>gradients.
     and_then (apply_gradients nb (optimizer vars) (zip gradients variables)) (\<lambda>(optimizer', variables').
     Inr (batch_loss,
          \<lparr>encoder_trainable_variables = take n variables',
           decoder_trainable_variables = drop n variables',
           optimizer = optimizer'\<rparr>)))))"

text \<open>
  Teacher forcing as the specification words it: the decoder input of step \<open>t\<close> is the
  \<open><start>\<close> token for \<open>t = 1\<close> and the ground-truth target token of position \<open>t - 1\<close>
  afterwards.
\<close>

definition teacher_input :: "('v, 'g, 'o) notebook \<Rightarrow> nat tensor \<Rightarrow> nat \<Rightarrow> error + nat tensor" where
  "teacher_input nb targ t =
     (if t = 1 then
        (case targ_lang_word_index nb START of
           None \<Rightarrow> Inl (KeyError START)
         | Some start \<Rightarrow> expand_dims (tensor_of_list (replicate (BATCH_SIZE nb) start)) 1)
      else and_then (slice_column targ (t - 1)) (\<lambda>c. expand_dims c 1))"

text \<open>
  The accumulated loss as the specification words it: the sum, over the decode steps, of
  \<open>loss_function\<close> between the target tokens of the step and the predictions the decoder
  makes on the teacher input.
\<close>

fun teacher_forced_loss :: "('v, 'g, 'o) notebook \<Rightarrow> 'v list \<Rightarrow> nat tensor \<Rightarrow> real tensor \<Rightarrow> nat list
    \<Rightarrow> real tensor \<Rightarrow> real \<Rightarrow> error + real" where
  "teacher_forced_loss nb dv targ enc_output [] h acc = Inr acc"
| "teacher_forced_loss nb dv targ enc_output (t # ts) h acc =
     and_then (teacher_input nb targ t) (\<lambda>x.
     and_then (decoder nb dv x h enc_output) (\<lambda>(predictions, h', _).
     and_then (slice_column targ t) (\<lambda>y.
     and_then (loss_function (loss_object nb) y predictions) (\<lambda>l.
     teacher_forced_loss nb dv targ enc_output ts h' (acc + el l [])))))"

definition accumulated_loss :: "('v, 'g, 'o) notebook \<Rightarrow> nat \<Rightarrow> nat tensor \<Rightarrow> nat tensor
    \<Rightarrow> real tensor \<Rightarrow> 'v list \<Rightarrow> error + real" where
  "accumulated_loss nb n inp targ enc_hidden vs =
     and_then (encoder nb (take n vs) inp enc_hidden) (\<lambda>(enc_output, h).
     teacher_forced_loss nb (drop n vs) targ enc_output [1..<shape targ ! 1] h 0)"

section \<open>evaluate\<close>

text \<open>\<open>s.split(' ')\<close>: the pieces between single separators, empty pieces included.\<close>

fun split_on :: "nat \<Rightarrow> ustr \<Rightarrow> ustr list" where
  "split_on sep [] = [[]]"
| "split_on sep (c # cs) =
     (if c = sep then [] # split_on sep cs
      else (case split_on sep cs of w # ws \<Rightarrow> (c # w) # ws | [] \<Rightarrow> [[c]]))"

text \<open>\<open>[word_index[i] for i in words]\<close>: the first missing key raises.\<close>

fun lookup_all :: "(ustr \<rightharpoonup> nat) \<Rightarrow> ustr list \<Rightarrow> error + nat list" where
  "lookup_all word_index [] = Inr []"
| "lookup_all word_index (w # ws) =
     (case word_index w of
        None \<Rightarrow> Inl (KeyError w)
      | Some i \<Rightarrow> and_then (lookup_all word_index ws) (\<lambda>is. Inr (i # is)))"

text \<open>
  The row of \<open>pad_sequences([xs], maxlen=n, padding='post')\<close>: a longer sequence keeps its
  last \<open>n\<close> entries (the default \<open>truncating='pre'\<close>), a shorter one is filled with 0 at the
  end.  For \<open>n = 0\<close> the truncation \<open>xs[-0:]\<close> keeps the whole sequence, and storing it in the
  empty row raises unless it is empty (then it is skipped) or has one entry (which is
  broadcast into the empty row).
\<close>

definition pad_sequence :: "nat list \<Rightarrow> nat \<Rightarrow> error + nat list" where
  "pad_sequence xs n =
     (if n = 0 then (if length xs \<le> 1 then Inr [] else Inl ValueError)
      else let ys = drop (length xs - n) xs in Inr (ys @ replicate (n - length ys) 0))"

definition row_tensor :: "nat list \<Rightarrow> nat tensor" where
  "row_tensor xs =
     \<lparr>shape = [1, length xs],
      el = (\<lambda>idx. case idx of [i, j] \<Rightarrow> if j < length xs then xs ! j else 0 | _ \<Rightarrow> 0)\<rparr>"

text \<open>\<open>tf.zeros(sh)\<close>\<close>

definition zeros :: "nat list \<Rightarrow> real tensor" where
  "zeros sh = \<lparr>shape = sh, el = (\<lambda>idx. 0)\<rparr>"

text \<open>
  \<open>attention_plot[t] = tf.reshape(attention_weights, (-1, )).numpy()\<close>: the weights in
  row-major order become row \<open>t\<close> of the plot; a single weight is broadcast along the row, any
  other length than that of the row raises.
\<close>

definition store_row :: "real list list \<Rightarrow> nat \<Rightarrow> real tensor \<Rightarrow> error + real list list" where
  "store_row plot t w =
     (let v = map (el w) (indices (shape w)); n = length (plot ! t) in
      if t \<ge> length plot then Inl IndexError
      else if length v = n then Inr (plot[t := v])
      else if length v = 1 then Inr (plot[t := replicate n (hd v)])
      else Inl ValueError)"

text \<open>
  \<open>tf.argmax(predictions[0]).numpy()\<close> as the key of the dictionary lookup that follows.  For
  predictions of shape (rows, vocabulary) it is the index of the largest entry of row 0 (of the
  first one where several are equal).  Predictions of rank below 2, without a row 0 or with
  an empty axis 1 make the expression raise; for predictions of a higher rank its value is an
  array, which the dictionary rejects as a key.
\<close>

fun argmax_from :: "nat \<Rightarrow> real \<Rightarrow> nat \<Rightarrow> real list \<Rightarrow> nat" where
  "argmax_from best v i [] = best"
| "argmax_from best v i (x # xs) =
     (if v < x then argmax_from i x (Suc i) xs else argmax_from best v (Suc i) xs)"

definition argmax_row0 :: "real tensor \<Rightarrow> error + nat" where
  "argmax_row0 predictions =
     (case shape predictions of
        n # c # rest \<Rightarrow>
          if n = 0 \<or> c = 0 then Inl InvalidArgumentError
          else if rest \<noteq> [] then Inl TypeError
          else Inr (argmax_from 0 (el predictions [0, 0]) 1
                      (map (\<lambda>j. el predictions [0, j]) [1..<c]))
      | _ \<Rightarrow> Inl InvalidArgumentError)"

text \<open>The decode loop of \<open>evaluate\<close>, with its early return (\<open>dec_in\<close> and \<open>dec_hid\<close>
  are the source's \<open>dec_input\<close> and \<open>dec_hidden\<close>).\<close>

fun decode_loop :: "('v, 'g, 'o) notebook \<Rightarrow> 'v list \<Rightarrow> real tensor \<Rightarrow> nat list \<Rightarrow> nat tensor
    \<Rightarrow> real tensor \<Rightarrow> ustr \<Rightarrow> ustr \<Rightarrow> real list list
    \<Rightarrow> error + (ustr \<times> ustr \<times> real list list)" where
  "decode_loop nb dv enc_out [] dec_in dec_hid result sentence attention_plot =
     Inr (result, sentence, attention_plot)"
| "decode_loop nb dv enc_out (t # ts) dec_in dec_hid result sentence attention_plot =
     and_then (decoder nb dv dec_in dec_hid enc_out)
       (\<lambda>(predictions, dec_hid', attention_weights).
     and_then (store_row attention_plot t attention_weights) (\<lambda>attention_plot'.
     and_then (argmax_row0 predictions) (\<lambda>predicted_id.
     (case targ_lang_index_word nb predicted_id of
        None \<Rightarrow> Inl (KeyErrorId predicted_id)
      | Some word \<Rightarrow>
          let result' = result @ word @ [32] in
          if word = END then Inr (result', sentence, attention_plot')
          else
            and_then (expand_dims (tensor_of_list [predicted_id]) 0) (\<lambda>dec_in'.
            decode_loop nb dv enc_out ts dec_in' dec_hid' result' sentence
              attention_plot')))))"

definition evaluate :: "('v, 'g, 'o) notebook \<Rightarrow> ('v, 'o) variables \<Rightarrow> ustr
    \<Rightarrow> error + (ustr \<times> ustr \<times> real list list)" where
  "evaluate nb vars sentence =
     (let attention_plot = replicate (max_length_targ nb) (replicate (max_length_inp nb) 0);
          sentence = preprocess_sentence (tables nb) sentence in
      and_then (lookup_all (inp_lang_word_index nb) (split_on 32 sentence)) (\<lambda>inputs.
      and_then (pad_sequence inputs (max_length_inp nb)) (\<lambda>inputs.
      let inputs = row_tensor inputs;
          result = [];
          hidden = zeros [1, global_units nb] in
      and_then (encoder nb (encoder_trainable_variables vars) inputs hidden)
        (\<lambda>(enc_out, enc_hidden).
      let dec_hid = enc_hidden in
      (case targ_lang_word_index nb START of
         None \<Rightarrow> Inl (KeyError START)
       | Some start \<Rightarrow>
      and_then (expand_dims (tensor_of_list [start]) 0) (\<lambda>dec_in.
      decode_loop nb (decoder_trainable_variables vars) enc_out [0..<max_length_targ nb]
        dec_in dec_hid result sentence attention_plot))))))"

text \<open>
  The attention weights of one decode step as a row of \<open>m\<close> numbers of the plot: the weights
  in row-major order, a single weight repeated along the row.
\<close>

definition plot_row :: "nat \<Rightarrow> real tensor \<Rightarrow> error + real list" where
  "plot_row m w =
     (let v = map (el w) (indices (shape w)) in
      if length v = m then Inr v
      else if length v = 1 then Inr (replicate m (hd v))
      else Inl ValueError)"

text \<open>
  Greedy decoding as the specification words it.  A step calls the decoder on the previous
  token id (as a batch of one token) and the previous hidden state; the step's token is the
  most likely one under the predictions, and it is recorded with its word and its row of the
  attention plot.  At most \<open>n\<close> steps are made, the token of each is fed back to the next
  together with the hidden state the decoder returned, and the step whose word is \<open><end>\<close>
  is the last.  An exception of a step is the exception of the run.
\<close>

fun greedy_decode :: "('v, 'g, 'o) notebook \<Rightarrow> 'v list \<Rightarrow> real tensor \<Rightarrow> nat \<Rightarrow> nat \<Rightarrow> nat
    \<Rightarrow> real tensor \<Rightarrow> error + (nat \<times> ustr \<times> real list) list" where
  "greedy_decode nb dv enc_out m 0 x h = Inr []"
| "greedy_decode nb dv enc_out m (Suc n) x h =
     and_then (expand_dims (tensor_of_list [x]) 0) (\<lambda>token.
     and_then (decoder nb dv token h enc_out) (\<lambda>(predictions, h', attention_weights).
     and_then (plot_row m attention_weights) (\<lambda>row.
     and_then (argmax_row0 predictions) (\<lambda>i.
     (case targ_lang_index_word nb i of
        None \<Rightarrow> Inl (KeyErrorId i)
      | Some word \<Rightarrow>
          if word = END then Inr [(i, word, row)]
          else and_then (greedy_decode nb dv enc_out m n i h') (\<lambda>steps.
               Inr ((i, word, row) # steps)))))))"

text \<open>
  The translation of a sentence as the specification words it: the ids of the words of the
  preprocessed sentence, padded, go through the encoder; greedy decoding starts from
  \<open><start>\<close> and the encoder's state and makes at most \<open>max_length_targ\<close> steps; the
  result is the words of the steps, each followed by a space, the preprocessed sentence, and
  the plot whose first rows are those of the steps, the rest being zero.
\<close>

definition translation :: "('v, 'g, 'o) notebook \<Rightarrow> ('v, 'o) variables \<Rightarrow> ustr
    \<Rightarrow> error + (ustr \<times> ustr \<times> real list list)" where
  "translation nb vars sentence =
     (let s = preprocess_sentence (tables nb) sentence;
          ids = map (\<lambda>w. the (inp_lang_word_index nb w)) (split_on 32 s) in
      and_then (pad_sequence ids (max_length_inp nb)) (\<lambda>padded.
      and_then (encoder nb (encoder_trainable_variables vars) (row_tensor padded)
                  (zeros [1, global_units nb])) (\<lambda>(enc_out, h0).
      and_then (case targ_lang_word_index nb START of
                  None \<Rightarrow> Inl (KeyError START) | Some start \<Rightarrow> Inr start) (\<lambda>start.
      and_then (greedy_decode nb (decoder_trainable_variables vars) enc_out (max_length_inp nb)
                  (max_length_targ nb) start h0) (\<lambda>steps.
      Inr (concat (map (\<lambda>(i, word, row). word @ [32]) steps), s,
           map (\<lambda>(i, word, row). row) steps
             @ replicate (max_length_targ nb - length steps)
                 (replicate (max_length_inp nb) 0)))))))"

text \<open>
  A small notebook state for concrete evaluations: vocabularies of three words, an encoder
  that returns zeros, a decoder that answers \<open><start>\<close> with token 3 and anything else with
  \<open><end>\<close> and gives each of the three input positions the weight 1/2, a per-position
  loss of 1, and a tape and an optimizer over no variables.
\<close>

definition demo_notebook :: "(nat, nat, nat) notebook" where
  "demo_notebook =
     \<lparr>encoder = (\<lambda>vs inp h. Inr (zeros [1, 3, 1], zeros [1, 1])),
      decoder = (\<lambda>vs x h enc.
         Inr (\<lparr>shape = [1, 4],
               el = (\<lambda>idx. if idx = [0, if el x [0, 0] = 1 then 3 else 2] then 1 else 0)\<rparr>,
              h, \<lparr>shape = [1, 3, 1], el = (\<lambda>idx. 1 / 2)\<rparr>)),
      loss_object = (\<lambda>y p. Inr \<lparr>shape = shape y, el = (\<lambda>idx. 1)\<rparr>),
      tape_gradient = (\<lambda>f vs. Inr []),
      apply_gradients = (\<lambda>opt gvs. Inr (opt, [])),
      inp_lang_word_index = map_of [(START, 1), (END, 2), (codes ''hi'', 3)],
      targ_lang_word_index = map_of [(START, 1), (END, 2), (codes ''hello'', 3)],
      targ_lang_index_word = map_of [(1, START), (2, END), (3, codes ''hello'')],
      BATCH_SIZE = 1,
      global_units = 1,
      max_length_targ = 3,
      max_length_inp = 3,
      tables = ascii_tables\<rparr>"

definition demo_variables :: "(nat, nat) variables" where
  "demo_variables =
     \<lparr>encoder_trainable_variables = [], decoder_trainable_variables = [], optimizer = 0\<rparr>"

text \<open>The same notebook with a decoder whose largest logit is always that of the padding
  id 0.\<close>

definition padding_logits :: "real tensor" where
  "padding_logits = \<lparr>shape = [1, 4], el = (\<lambda>idx. if idx = [0, 0] then 1 else 0)\<rparr>"

definition padding_decoder_notebook :: "(nat, nat, nat) notebook" where
  "padding_decoder_notebook =
     demo_notebook\<lparr>decoder := (\<lambda>vs x h enc. Inr (padding_logits, h, zeros [1, 3, 1]))\<rparr>"


section \<open>Properties of the framework primitives\<close>

lemma broadcast_shape_time: "broadcast_shape [B, Suc 0, U] [B, L, U] = Some [B, L, U]"
  by (simp add: broadcast_shape_def)

lemma broadcast_shape_last: "broadcast_shape [B, L, Suc 0] [B, L, H] = Some [B, L, H]"
  by (simp add: broadcast_shape_def)

lemma bidx3:
  "bidx [a, b, c] [i, j, k] =
     [if a = 1 then 0 else i, if b = 1 then 0 else j, if c = 1 then 0 else k]"
  by (simp add: bidx_def)

lemma below_select: "i < n \<Longrightarrow> (if n = Suc 0 then 0 else i) = i"
  by auto

lemma expand_dims_query:
  assumes "shape q = [B, H]"
  shows "\<exists>q1. expand_dims q 1 = Inr q1 \<and> shape q1 = [B, 1, H]
           \<and> (\<forall>b t i. el q1 [b, t, i] = el q [b, i])"
  using assms by (simp add: expand_dims_def)

lemma dense_call_rank3:
  assumes "shape x = [B, L, in_dim d]"
  shows "\<exists>y. dense_call d x = Inr y \<and> shape y = [B, L, units d]
           \<and> (\<forall>b t u. el y [b, t, u] = dense_vec d (\<lambda>i. el x [b, t, i]) u)"
  using assms by (simp add: dense_call_def dense_vec_def)

lemma add_time_axis:
  assumes "shape a = [B, 1, U]" and "shape c = [B, L, U]"
  shows "\<exists>s. add a c = Inr s \<and> shape s = [B, L, U]
           \<and> (\<forall>b<B. \<forall>t<L. \<forall>u<U. el s [b, t, u] = el a [b, 0, u] + el c [b, t, u])"
  using assms by (simp add: add_def broadcast_op_def broadcast_shape_time bidx3 below_select)

lemma mul_last_axis:
  assumes "shape w = [B, L, 1]" and "shape v = [B, L, H]"
  shows "\<exists>p. mul w v = Inr p \<and> shape p = [B, L, H]
           \<and> (\<forall>b<B. \<forall>t<L. \<forall>h<H. el p [b, t, h] = el w [b, t, 0] * el v [b, t, h])"
  using assms by (simp add: mul_def broadcast_op_def broadcast_shape_last bidx3 below_select)

lemma softmax_time_axis:
  assumes "shape s = [B, L, K]"
  shows "\<exists>w. softmax s 1 = Inr w \<and> shape w = [B, L, K]
           \<and> (\<forall>b t k. el w [b, t, k] = exp (el s [b, t, k]) / (\<Sum>j<L. exp (el s [b, j, k])))"
  using assms by (simp add: softmax_def)

lemma reduce_sum_time_axis:
  assumes "shape p = [B, L, H]"
  shows "\<exists>c. reduce_sum p 1 = Inr c \<and> shape c = [B, H]
           \<and> (\<forall>b h. el c [b, h] = (\<Sum>t<L. el p [b, t, h]))"
  using assms by (simp add: reduce_sum_def)

section \<open>The attention layer\<close>

text \<open>
  The call of the attention layer, operation by operation: each framework call succeeds on
  the stated shapes, the broadcast addition repeats the projected query along the time axis
  and the broadcast product repeats each weight along the hidden axis.
\<close>

lemma call_pointwise:
  assumes q: "shape query = [B, H]" and v: "shape values = [B, L, H]" and bt: "built self H U"
  shows "\<exists>cx w. BahdanauAttention_call self query values = Inr (cx, w)
         \<and> shape w = [B, L, 1] \<and> shape cx = [B, H]
         \<and> (\<forall>b<B. \<forall>t<L. el w [b, t, 0] =
               exp (textbook_score self query values b t) /
                 (\<Sum>j<L. exp (textbook_score self query values b j)))
         \<and> (\<forall>b<B. \<forall>h<H. el cx [b, h] = (\<Sum>t<L. el w [b, t, 0] * el values [b, t, h]))"
proof -
  from bt have dims: "in_dim (W1 self) = H" "units (W1 self) = U" "in_dim (W2 self) = H"
      "units (W2 self) = U" "in_dim (V self) = U" "units (V self) = 1"
    by (simp_all add: built_def)
  obtain q1 where q1: "expand_dims query 1 = Inr q1" "shape q1 = [B, 1, H]"
      "\<And>b t i. el q1 [b, t, i] = el query [b, i]"
    using expand_dims_query [OF q] by blast
  obtain a where a: "dense_call (W1 self) q1 = Inr a" "shape a = [B, 1, U]"
      "\<And>b t u. el a [b, t, u] = dense_vec (W1 self) (\<lambda>i. el query [b, i]) u"
    using dense_call_rank3 [of q1 B 1 "W1 self"] q1 dims by auto
  obtain c where c: "dense_call (W2 self) values = Inr c" "shape c = [B, L, U]"
      "\<And>b t u. el c [b, t, u] = dense_vec (W2 self) (\<lambda>i. el values [b, t, i]) u"
    using dense_call_rank3 [of "values" B L "W2 self"] v dims by auto
  obtain s where s: "add a c = Inr s" "shape s = [B, L, U]"
      "\<And>b t u. b < B \<Longrightarrow> t < L \<Longrightarrow> u < U \<Longrightarrow> el s [b, t, u] = el a [b, 0, u] + el c [b, t, u]"
    using add_time_axis [OF a(2) c(2)] by blast
  have ts: "shape (tanh_t s) = [B, L, in_dim (V self)]"
    by (simp add: tanh_t_def s(2) dims)
  obtain score where sc: "dense_call (V self) (tanh_t s) = Inr score" "shape score = [B, L, 1]"
      "\<And>b t u. el score [b, t, u] = dense_vec (V self) (\<lambda>i. el (tanh_t s) [b, t, i]) u"
    using dense_call_rank3 [OF ts] dims by auto
  have score: "el score [b, t, 0] = textbook_score self query values b t" if "b < B" "t < L" for b t
    using that by (simp add: sc(3) textbook_score_def dense_vec_def [of "V self"] dims tanh_t_def
        s(3) a(3) c(3))
  obtain w where w: "softmax score 1 = Inr w" "shape w = [B, L, 1]"
      "\<And>b t k. el w [b, t, k] = exp (el score [b, t, k]) / (\<Sum>j<L. exp (el score [b, j, k]))"
    using softmax_time_axis [OF sc(2)] by blast
  have weight: "el w [b, t, 0] = exp (textbook_score self query values b t) /
      (\<Sum>j<L. exp (textbook_score self query values b j))" if "b < B" "t < L" for b t
    using that by (simp add: w(3) score)
  obtain p where p: "mul w values = Inr p" "shape p = [B, L, H]"
      "\<And>b t h. b < B \<Longrightarrow> t < L \<Longrightarrow> h < H \<Longrightarrow> el p [b, t, h] = el w [b, t, 0] * el values [b, t, h]"
    using mul_last_axis [OF w(2) v] by blast
  obtain cx where cx: "reduce_sum p 1 = Inr cx" "shape cx = [B, H]"
      "\<And>b h. el cx [b, h] = (\<Sum>t<L. el p [b, t, h])"
    using reduce_sum_time_axis [OF p(2)] by blast
  have ctx: "el cx [b, h] = (\<Sum>t<L. el w [b, t, 0] * el values [b, t, h])" if "b < B" "h < H" for b h
    using that by (simp add: cx(3) p(3))
  have "BahdanauAttention_call self query values = Inr (cx, w)"
    using q1(1) a(1) c(1) s(1) sc(1) w(1) p(1) cx(1) by (simp add: BahdanauAttention_call_def and_then_def)
  with w(2) cx(2) weight ctx show ?thesis by blast
qed

lemma sum_exp_pos: "0 < (L :: nat) \<Longrightarrow> 0 < (\<Sum>s<L. exp (f s :: real))"
  by (rule sum_pos) auto

text \<open>
  C1.  For a query of shape (batch_size, hidden) and values of shape (batch_size, max_len,
  hidden), the call of the attention layer (built for that hidden size) succeeds and returns
  exactly the textbook
  quantities: the attention weight of position t is the softmax over the time axis of
  score = V(tanh(W1(query) + W2(values))), and the context vector is the sum over the time
  axis of the weights times the values.
\<close>

theorem attention_call_textbook:
  assumes "shape query = [B, H]" and "shape values = [B, L, H]" and "built self H U"
  shows "\<exists>context_vector attention_weights.
           BahdanauAttention_call self query values = Inr (context_vector, attention_weights)
         \<and> shape attention_weights = [B, L, 1] \<and> shape context_vector = [B, H]
         \<and> (\<forall>b<B. \<forall>t<L. el attention_weights [b, t, 0] = textbook_weight self query values b t)
         \<and> (\<forall>b<B. \<forall>h<H. el context_vector [b, h] = textbook_context self query values b h)"
proof -
  obtain cx w where r: "BahdanauAttention_call self query values = Inr (cx, w)"
      "shape w = [B, L, 1]" "shape cx = [B, H]"
      "\<And>b t. b < B \<Longrightarrow> t < L \<Longrightarrow> el w [b, t, 0] =
          exp (textbook_score self query values b t) /
            (\<Sum>j<L. exp (textbook_score self query values b j))"
      "\<And>b h. b < B \<Longrightarrow> h < H \<Longrightarrow> el cx [b, h] = (\<Sum>t<L. el w [b, t, 0] * el values [b, t, h])"
    using call_pointwise [OF assms] by blast
  have weight: "el w [b, t, 0] = textbook_weight self query values b t" if "b < B" "t < L" for b t
    using that by (simp add: r(4) textbook_weight_def assms(2))
  have "el cx [b, h] = textbook_context self query values b h" if "b < B" "h < H" for b h
    using that by (simp add: r(5) textbook_context_def assms(2) weight)
  with r(1-3) weight show ?thesis by blast
qed

theorem attention_call_textbook_witness:
  "shape \<lparr>shape = [1, 1], el = (\<lambda>idx. 0 :: real)\<rparr> = [1, 1]
   \<and> shape \<lparr>shape = [1, 2, 1], el = (\<lambda>idx. if idx = [0, 0, 0] then 2 else 4 :: real)\<rparr> = [1, 2, 1]
   \<and> built \<lparr>W1 = zero_dense 1 1, W2 = zero_dense 1 1, V = zero_dense 1 1\<rparr> 1 1
   \<and> (\<exists>c w. BahdanauAttention_call \<lparr>W1 = zero_dense 1 1, W2 = zero_dense 1 1, V = zero_dense 1 1\<rparr>
               \<lparr>shape = [1, 1], el = (\<lambda>idx. 0)\<rparr>
               \<lparr>shape = [1, 2, 1], el = (\<lambda>idx. if idx = [0, 0, 0] then 2 else 4)\<rparr> = Inr (c, w)
         \<and> el w [0, 0, 0] = 1 / 2 \<and> el w [0, 1, 0] = 1 / 2 \<and> el c [0, 0] = 3)"
  using attention_call_textbook [of "\<lparr>shape = [1, 1], el = (\<lambda>idx. 0 :: real)\<rparr>" 1 1
      "\<lparr>shape = [1, 2, 1], el = (\<lambda>idx. if idx = [0, 0, 0] then 2 else 4 :: real)\<rparr>" 2
      "\<lparr>W1 = zero_dense 1 1, W2 = zero_dense 1 1, V = zero_dense 1 1\<rparr>" 1]
  by (auto simp: built_def zero_dense_def textbook_weight_def textbook_context_def
      textbook_score_def dense_vec_def numeral_2_eq_2)

text \<open>
  C8 (as amended).  When the values have at least one encoder position (max_len \<ge> 1), the
  attention weights returned by the attention layer are a probability distribution over the
  time axis: every weight is strictly positive and, for each batch element, the weights of
  the max_len positions sum to 1.
\<close>

theorem attention_weights_distribution:
  assumes "shape query = [B, H]" and "shape values = [B, L, H]" and "built self H U"
    and "0 < L"
  shows "\<exists>context_vector attention_weights.
           BahdanauAttention_call self query values = Inr (context_vector, attention_weights)
         \<and> shape attention_weights = [B, L, 1]
         \<and> (\<forall>b<B. \<forall>t<L. 0 < el attention_weights [b, t, 0])
         \<and> (\<forall>b<B. (\<Sum>t<L. el attention_weights [b, t, 0]) = 1)"
proof -
  let ?e = "\<lambda>b t. exp (textbook_score self query values b t)"
  obtain c w where r: "BahdanauAttention_call self query values = Inr (c, w)" "shape w = [B, L, 1]"
      "\<And>b t. b < B \<Longrightarrow> t < L \<Longrightarrow> el w [b, t, 0] = ?e b t / (\<Sum>j<L. ?e b j)"
    using call_pointwise [OF assms(1-3)] by blast
  have pos: "0 < (\<Sum>j<L. ?e b j)" for b
    using sum_exp_pos [OF assms(4)] .
  have "0 < el w [b, t, 0]" if "b < B" "t < L" for b t
    using that pos [of b] by (simp add: r(3))
  moreover have "(\<Sum>t<L. el w [b, t, 0]) = 1" if "b < B" for b
  proof -
    have "(\<Sum>t<L. el w [b, t, 0]) = (\<Sum>t<L. ?e b t / (\<Sum>j<L. ?e b j))"
      using that by (simp add: r(3))
    also have "\<dots> = (\<Sum>t<L. ?e b t) / (\<Sum>j<L. ?e b j)"
      by (simp add: sum_divide_distrib [symmetric])
    also have "\<dots> = 1"
      using pos [of b] by simp
    finally show ?thesis .
  qed
  ultimately show ?thesis using r(1,2) by blast
qed

theorem attention_weights_distribution_witness:
  "shape \<lparr>shape = [1, 1], el = (\<lambda>idx. 0 :: real)\<rparr> = [1, 1]
   \<and> shape \<lparr>shape = [1, 2, 1], el = (\<lambda>idx. 0 :: real)\<rparr> = [1, 2, 1]
   \<and> built \<lparr>W1 = zero_dense 1 1, W2 = zero_dense 1 1, V = zero_dense 1 1\<rparr> 1 1
   \<and> (0 :: nat) < 2
   \<and> (\<exists>c w. BahdanauAttention_call \<lparr>W1 = zero_dense 1 1, W2 = zero_dense 1 1, V = zero_dense 1 1\<rparr>
               \<lparr>shape = [1, 1], el = (\<lambda>idx. 0)\<rparr>
               \<lparr>shape = [1, 2, 1], el = (\<lambda>idx. 0)\<rparr> = Inr (c, w)
         \<and> 0 < el w [0, 0, 0] \<and> 0 < el w [0, 1, 0] \<and> el w [0, 0, 0] + el w [0, 1, 0] = 1)"
  using attention_weights_distribution [of "\<lparr>shape = [1, 1], el = (\<lambda>idx. 0 :: real)\<rparr>" 1 1
      "\<lparr>shape = [1, 2, 1], el = (\<lambda>idx. 0 :: real)\<rparr>" 2
      "\<lparr>W1 = zero_dense 1 1, W2 = zero_dense 1 1, V = zero_dense 1 1\<rparr>" 1]
  by (auto simp: built_def zero_dense_def numeral_2_eq_2)

text \<open>
  C8 as stated fails on values with an empty time axis: the call succeeds, the weights have
  shape (1, 0, 1), and the weights of the single batch element sum to 0, not to 1.
\<close>

theorem attention_weights_empty_time_axis:
  "\<exists>c w. BahdanauAttention_call \<lparr>W1 = zero_dense 1 1, W2 = zero_dense 1 1, V = zero_dense 1 1\<rparr>
            \<lparr>shape = [1, 1], el = (\<lambda>idx. 0)\<rparr>
            \<lparr>shape = [1, 0, 1], el = (\<lambda>idx. 0)\<rparr> = Inr (c, w)
      \<and> shape w = [1, 0, 1] \<and> (\<Sum>t<0. el w [0, t, 0]) \<noteq> 1"
  by (simp add: BahdanauAttention_call_def and_then_def expand_dims_def dense_call_def zero_dense_def add_def
      mul_def broadcast_op_def broadcast_shape_def tanh_t_def softmax_def reduce_sum_def)

section \<open>The masked loss\<close>

lemma bdims_same: "bdims xs xs = Some xs"
  by (induction xs) simp_all

lemma broadcast_shape_same: "broadcast_shape sh sh = Some sh"
  by (simp add: broadcast_shape_def bdims_same)

lemma indices_length: "idx \<in> set (indices sh) \<Longrightarrow> length idx = length sh"
  by (induction sh arbitrary: idx) auto

lemma indices_below: "idx \<in> set (indices sh) \<Longrightarrow> list_all2 (<) idx sh"
  by (induction sh arbitrary: idx) auto

lemma map2_select:
  "list_all2 (<) idx sh \<Longrightarrow> map2 (\<lambda>d i. if d = 1 then 0 else i) sh idx = (idx :: nat list)"
  by (induction idx sh rule: list_all2_induct) auto

lemma bidx_same: "idx \<in> set (indices sh) \<Longrightarrow> bidx sh idx = idx"
  by (simp only: bidx_def indices_length diff_self_eq_0 drop_0 map2_select [OF indices_below])

lemma sum_list_bidx: "(\<Sum>i\<leftarrow>indices sh. g (bidx sh i)) = (\<Sum>i\<leftarrow>indices sh. g i)"
  by (rule arg_cong [where f = sum_list], rule map_cong) (auto simp: bidx_same)

text \<open>
  C9.  \<open>loss_function\<close> multiplies the per-position loss by 0 wherever the label is the
  padding id 0 and by 1 elsewhere, and returns the mean over all positions: a padding
  position contributes nothing to the returned mean, any other position contributes its
  full per-position loss.  (Stated for labels with at least one position; the mean of none is
  NaN in the framework.)
\<close>

theorem loss_function_masks_padding:
  assumes "loss_obj real' pred = Inr ce" and "shape ce = shape real'"
    and "indices (shape real') \<noteq> []"
  shows "\<exists>l. loss_function loss_obj real' pred = Inr l \<and> shape l = []
     \<and> el l [] = (\<Sum>i\<leftarrow>indices (shape real'). if el real' i = 0 then 0 else el ce i)
                  / real (length (indices (shape real')))"
proof -
  let ?sh = "shape real'"
  let ?g = "\<lambda>j. el ce j * (if 0 < el real' j then 1 else 0)"
  have run: "loss_function loss_obj real' pred =
      Inr (reduce_mean \<lparr>shape = ?sh, el = (\<lambda>idx. ?g (bidx ?sh idx))\<rparr>)"
    using assms(1,2)
    by (simp add: loss_function_def and_then_def mul_def broadcast_op_def broadcast_shape_same
        cast_float_def logical_not_def equal_scalar_def)
  have "(\<Sum>i\<leftarrow>indices ?sh. ?g (bidx ?sh i)) = (\<Sum>i\<leftarrow>indices ?sh. ?g i)"
    by (rule sum_list_bidx)
  also have "\<dots> = (\<Sum>i\<leftarrow>indices ?sh. if el real' i = 0 then 0 else el ce i)"
    by (rule arg_cong [where f = sum_list], rule map_cong) auto
  finally show ?thesis
    by (simp add: run reduce_mean_def)
qed

theorem loss_function_masks_padding_witness:
  "(\<lambda>r p. Inr \<lparr>shape = [2], el = (\<lambda>idx. if idx = [0] then 3 else 5)\<rparr>)
       \<lparr>shape = [2], el = (\<lambda>idx. if idx = [0] then 7 else 0)\<rparr>
       \<lparr>shape = [2, 9], el = (\<lambda>idx. 0)\<rparr>
     = (Inr \<lparr>shape = [2], el = (\<lambda>idx. if idx = [0] then 3 else 5)\<rparr> :: error + real tensor)
   \<and> indices (shape \<lparr>shape = [2], el = (\<lambda>idx. if idx = [0] then 7 else (0 :: nat))\<rparr>) \<noteq> []
   \<and> (\<exists>l. loss_function (\<lambda>r p. Inr \<lparr>shape = [2], el = (\<lambda>idx. if idx = [0] then 3 else 5)\<rparr>)
            \<lparr>shape = [2], el = (\<lambda>idx. if idx = [0] then 7 else 0)\<rparr>
            \<lparr>shape = [2, 9], el = (\<lambda>idx. 0)\<rparr> = Inr l
          \<and> el l [] = 3 / 2)"
  using loss_function_masks_padding [of
      "\<lambda>r p. Inr \<lparr>shape = [2], el = (\<lambda>idx. if idx = [0] then 3 else 5)\<rparr>"
      "\<lparr>shape = [2], el = (\<lambda>idx. if idx = [0] then 7 else 0)\<rparr>"
      "\<lparr>shape = [2, 9], el = (\<lambda>idx. 0)\<rparr>"
      "\<lparr>shape = [2], el = (\<lambda>idx. if idx = [0] then 3 else 5)\<rparr>"]
  by (auto simp: numeral_2_eq_2)

section \<open>The decoder\<close>

lemma set_indices_column: "set (indices [B, Suc 0]) = (\<lambda>b. [b, 0]) ` {..<B}"
  by (auto simp: image_iff)

lemma Embedding_call_column:
  assumes "shape x = [B, 1]" and "\<forall>b<B. el x [b, 0] < input_dim e"
  shows "\<exists>y. Embedding_call e x = Inr y \<and> shape y = [B, 1, output_dim e]
           \<and> (\<forall>b t k. el y [b, t, k] = embeddings e (el x [b, t]) k)"
  using assms by (auto simp: Embedding_call_def set_indices_column)

lemma concat_last_rank3:
  assumes "shape a = [B, L, M]" and "shape b = [B, L, N]"
  shows "\<exists>y. concat_last a b = Inr y \<and> shape y = [B, L, M + N]
           \<and> (\<forall>i j k. k < M \<longrightarrow> el y [i, j, k] = el a [i, j, k])
           \<and> (\<forall>i j k. el y [i, j, M + k] = el b [i, j, k])"
  using assms by (simp add: concat_last_def)

lemma reshape_rows_single_step:
  assumes "shape t = [B, 1, D]" and "0 < D"
  shows "\<exists>y. reshape_rows t = Inr y \<and> shape y = [B, D]
           \<and> (\<forall>b k. k < D \<longrightarrow> el y [b, k] = el t [b, 0, k])"
  using assms by (simp add: reshape_rows_def)

lemma dense_call_rank2:
  assumes "shape x = [B, in_dim d]"
  shows "\<exists>y. dense_call d x = Inr y \<and> shape y = [B, units d]
           \<and> (\<forall>b u. el y [b, u] = dense_vec d (\<lambda>i. el x [b, i]) u)"
  using assms by (simp add: dense_call_def dense_vec_def)


text \<open>
  C3.  Every call of \<open>Decoder.call\<close> on the shapes of a decode step (one token id per batch
  element, a hidden state (batch, units), encoder outputs (batch, max_len, units)) recomputes
  the attention with the hidden state as query against every encoder position: the context
  vector is the attention-weighted sum of the encoder outputs, it is concatenated in front of
  the embedded input token, the concatenation is what the GRU receives, and the call returns
  the dense projection of the GRU output together with the GRU state and the attention
  weights.
\<close>

theorem Decoder_call_steps:
  assumes x: "shape x = [B, 1]" and ids: "\<forall>b<B. el x [b, 0] < input_dim (embedding self)"
    and h: "shape hidden = [B, U]" and e: "shape enc_output = [B, L, U]"
    and att: "built (attention self) U A"
    and g: "\<And>xin. shape xin = [B, 1, U + output_dim (embedding self)] \<Longrightarrow>
              \<exists>out st. gru self xin = Inr (out, st) \<and> shape out = [B, 1, in_dim (fc self)]"
    and d: "0 < in_dim (fc self)"
  shows "\<exists>context_vector attention_weights xin output state logits.
           BahdanauAttention_call (attention self) hidden enc_output = Inr (context_vector, attention_weights)
         \<and> (\<forall>b<B. \<forall>t<L. el attention_weights [b, t, 0] =
                textbook_weight (attention self) hidden enc_output b t)
         \<and> (\<forall>b<B. \<forall>k<U. el context_vector [b, k] =
                (\<Sum>t<L. el attention_weights [b, t, 0] * el enc_output [b, t, k]))
         \<and> shape xin = [B, 1, U + output_dim (embedding self)]
         \<and> (\<forall>b<B. \<forall>k<U. el xin [b, 0, k] = el context_vector [b, k])
         \<and> (\<forall>b<B. \<forall>k<output_dim (embedding self).
                el xin [b, 0, U + k] = embeddings (embedding self) (el x [b, 0]) k)
         \<and> gru self xin = Inr (output, state)
         \<and> Decoder_call self x hidden enc_output = Inr (logits, state, attention_weights)
         \<and> shape logits = [B, units (fc self)]
         \<and> (\<forall>b<B. \<forall>j<units (fc self).
                el logits [b, j] = dense_vec (fc self) (\<lambda>i. el output [b, 0, i]) j)"
proof -
  obtain cx w where a: "BahdanauAttention_call (attention self) hidden enc_output = Inr (cx, w)" "shape cx = [B, U]"
      "\<forall>b<B. \<forall>t<L. el w [b, t, 0] =
          exp (textbook_score (attention self) hidden enc_output b t) /
            (\<Sum>j<L. exp (textbook_score (attention self) hidden enc_output b j))"
      "\<forall>b<B. \<forall>k<U. el cx [b, k] = (\<Sum>t<L. el w [b, t, 0] * el enc_output [b, t, k])"
    using call_pointwise [OF h e att] by blast
  have tw: "\<forall>b<B. \<forall>t<L. el w [b, t, 0] = textbook_weight (attention self) hidden enc_output b t"
    using a(3) by (simp add: textbook_weight_def e)
  obtain xe where xe: "Embedding_call (embedding self) x = Inr xe"
      "shape xe = [B, 1, output_dim (embedding self)]"
      "\<And>b t k. el xe [b, t, k] = embeddings (embedding self) (el x [b, t]) k"
    using Embedding_call_column [OF x ids] by blast
  obtain c1 where c1: "expand_dims cx 1 = Inr c1" "shape c1 = [B, 1, U]"
      "\<And>b t k. el c1 [b, t, k] = el cx [b, k]"
    using expand_dims_query [OF a(2)] by blast
  obtain xin where xin: "concat_last c1 xe = Inr xin"
      "shape xin = [B, 1, U + output_dim (embedding self)]"
      "\<And>i j k. k < U \<Longrightarrow> el xin [i, j, k] = el c1 [i, j, k]"
      "\<And>i j k. el xin [i, j, U + k] = el xe [i, j, k]"
    using concat_last_rank3 [OF c1(2) xe(2)] by blast
  obtain out st where out: "gru self xin = Inr (out, st)" "shape out = [B, 1, in_dim (fc self)]"
    using g [OF xin(2)] by blast
  obtain r where r: "reshape_rows out = Inr r" "shape r = [B, in_dim (fc self)]"
      "\<And>b k. k < in_dim (fc self) \<Longrightarrow> el r [b, k] = el out [b, 0, k]"
    using reshape_rows_single_step [OF out(2) d] by blast
  obtain y where y: "dense_call (fc self) r = Inr y" "shape y = [B, units (fc self)]"
      "\<And>b u. el y [b, u] = dense_vec (fc self) (\<lambda>i. el r [b, i]) u"
    using dense_call_rank2 [OF r(2)] by blast
  have logits: "el y [b, j] = dense_vec (fc self) (\<lambda>i. el out [b, 0, i]) j" for b j
    by (simp add: y(3) dense_vec_def r(3))
  have run: "Decoder_call self x hidden enc_output = Inr (y, st, w)"
    using a(1) xe(1) c1(1) xin(1) out(1) r(1) y(1) by (simp add: Decoder_call_def and_then_def)
  have "\<forall>b<B. \<forall>k<U. el xin [b, 0, k] = el cx [b, k]"
    by (simp add: xin(3) c1(3))
  moreover have "\<forall>b<B. \<forall>k<output_dim (embedding self).
      el xin [b, 0, U + k] = embeddings (embedding self) (el x [b, 0]) k"
    by (simp add: xin(4) xe(3))
  ultimately show ?thesis
    using a(1) tw a(4) xin(2) out(1) run y(2) logits by blast
qed

theorem Decoder_call_steps_witness:
  "shape \<lparr>shape = [1, 1], el = (\<lambda>idx. 1 :: nat)\<rparr> = [1, 1]
   \<and> el \<lparr>shape = [1, 1], el = (\<lambda>idx. 1 :: nat)\<rparr> [0, 0] < 2
   \<and> shape \<lparr>shape = [1, 1], el = (\<lambda>idx. 0 :: real)\<rparr> = [1, 1]
   \<and> shape \<lparr>shape = [1, 1, 1], el = (\<lambda>idx. 3 :: real)\<rparr> = [1, 1, 1]
   \<and> built (zero_attention 1 1) 1 1
   \<and> (\<exists>logits state attention_weights.
         Decoder_call
           \<lparr>batch_sz = 1, dec_units = 1,
            embedding = \<lparr>input_dim = 2, output_dim = 1, embeddings = (\<lambda>i k. 5)\<rparr>,
            gru = (\<lambda>xin. Inr (\<lparr>shape = [1, 1, 1], el = (\<lambda>idx. el xin [0, 0, 0] + el xin [0, 0, 1])\<rparr>,
                              \<lparr>shape = [1, 1], el = (\<lambda>idx. 0)\<rparr>)),
            fc = \<lparr>in_dim = 1, units = 2, kernel = (\<lambda>i j. 1), bias = (\<lambda>j. 0)\<rparr>,
            attention = zero_attention 1 1\<rparr>
           \<lparr>shape = [1, 1], el = (\<lambda>idx. 1)\<rparr>
           \<lparr>shape = [1, 1], el = (\<lambda>idx. 0)\<rparr>
           \<lparr>shape = [1, 1, 1], el = (\<lambda>idx. 3)\<rparr> = Inr (logits, state, attention_weights)
       \<and> shape logits = [1, 2] \<and> el logits [0, 0] = 8 \<and> el logits [0, 1] = 8
       \<and> el attention_weights [0, 0, 0] = 1)"
  using Decoder_call_steps [of "\<lparr>shape = [1, 1], el = (\<lambda>idx. 1 :: nat)\<rparr>" 1
      "\<lparr>batch_sz = 1, dec_units = 1,
            embedding = \<lparr>input_dim = 2, output_dim = 1, embeddings = (\<lambda>i k. 5)\<rparr>,
            gru = (\<lambda>xin. Inr (\<lparr>shape = [1, 1, 1], el = (\<lambda>idx. el xin [0, 0, 0] + el xin [0, 0, 1])\<rparr>,
                              \<lparr>shape = [1, 1], el = (\<lambda>idx. 0)\<rparr>)),
            fc = \<lparr>in_dim = 1, units = 2, kernel = (\<lambda>i j. 1), bias = (\<lambda>j. 0)\<rparr>,
            attention = zero_attention 1 1\<rparr>"
      "\<lparr>shape = [1, 1], el = (\<lambda>idx. 0 :: real)\<rparr>" 1
      "\<lparr>shape = [1, 1, 1], el = (\<lambda>idx. 3 :: real)\<rparr>" 1 1]
  by (auto simp: built_def zero_attention_def zero_dense_def textbook_weight_def
      textbook_score_def dense_vec_def numeral_2_eq_2)

section \<open>Text preprocessing: the passes and their result\<close>



lemma dropWhile_dropWhile_weaker:
  assumes "\<And>c. Q c \<Longrightarrow> P c"
  shows "dropWhile P (dropWhile Q cs) = dropWhile P cs"
  using assms by (induction cs) auto

lemma sub_runs_absorb_both:
  assumes "\<forall>c. Q c \<longrightarrow> P c" and "P 32"
  shows "sub_runs P (sub_runs Q s) = sub_runs P s
       \<and> sub_runs P (dropWhile P (sub_runs Q s)) = sub_runs P (dropWhile P s)"
  using assms
proof (induction Q s rule: sub_runs.induct)
  case (1 Q)
  show ?case by simp
next
  case (2 Q c cs)
  have dd: "dropWhile P (dropWhile Q cs) = dropWhile P cs"
    using "2.prems"(1) by (intro dropWhile_dropWhile_weaker) blast
  show ?case
  proof (cases "Q c")
    case True
    then have "P c" using "2.prems" by blast
    with 2 True dd show ?thesis by simp
  next
    case False
    with 2 show ?thesis by (cases "P c") auto
  qed
qed

lemma sub_runs_absorb:
  assumes "\<forall>c. Q c \<longrightarrow> P c" and "P 32"
  shows "sub_runs P (sub_runs Q s) = sub_runs P s"
  using sub_runs_absorb_both [OF assms] by blast

lemma isolated_Cons:
  "isolated P (c # cs) \<longleftrightarrow> (P c \<longrightarrow> c = 32 \<and> (cs = [] \<or> \<not> P (hd cs))) \<and> isolated P cs"
  by (cases cs) auto

lemma sub_runs_after_run: "sub_runs P (dropWhile P cs) = [] \<or> \<not> P (hd (sub_runs P (dropWhile P cs)))"
proof (cases "dropWhile P cs")
  case Nil
  show ?thesis unfolding Nil by simp
next
  case (Cons d ds)
  then have "\<not> P d" using hd_dropWhile [of P cs] by auto
  then show ?thesis unfolding Cons by simp
qed

lemma isolated_sub_runs: "isolated P (sub_runs P s)"
proof (induction P s rule: sub_runs.induct)
  case (1 P)
  show ?case by simp
next
  case (2 P c cs)
  show ?case
  proof (cases "P c")
    case True
    with 2 sub_runs_after_run [of P cs] show ?thesis by (simp add: isolated_Cons)
  next
    case False
    with 2 show ?thesis by (simp add: isolated_Cons)
  qed
qed

lemma sub_runs_isolated:
  assumes "\<forall>c. Q c \<longrightarrow> P c" and "isolated P t"
  shows "sub_runs Q t = t"
  using assms
proof (induction t)
  case Nil
  show ?case by simp
next
  case (Cons c cs)
  then have cs: "sub_runs Q cs = cs" by (simp add: isolated_Cons)
  show ?case
  proof (cases "Q c")
    case True
    then have "P c" using Cons.prems by blast
    with Cons.prems have c: "c = 32" and h: "cs = [] \<or> \<not> P (hd cs)"
      by (auto simp: isolated_Cons)
    from h Cons.prems(1) have "dropWhile Q cs = cs" by (cases cs) auto
    with True c cs show ?thesis by simp
  next
    case False
    with cs show ?thesis by simp
  qed
qed

lemma sub_runs_set: "set (sub_runs P s) \<subseteq> {c \<in> set s. \<not> P c} \<union> {32}"
proof (induction P s rule: sub_runs.induct)
  case (1 P)
  show ?case by simp
next
  case (2 P c cs)
  show ?case
  proof (cases "P c")
    case True
    with 2 have "set (sub_runs P (dropWhile P cs)) \<subseteq> {c \<in> set (dropWhile P cs). \<not> P c} \<union> {32}"
      by simp
    moreover have "set (dropWhile P cs) \<subseteq> set cs" by (auto dest: set_dropWhileD)
    ultimately show ?thesis using True by auto
  next
    case False
    with 2 show ?thesis by auto
  qed
qed

lemma pad_punct_set: "set (pad_punct s) \<subseteq> set s \<union> {32}"
  by (induction s) (auto simp: pad_punct_def)

lemma strip_set: "set (strip s) \<subseteq> set s"
  by (auto simp: strip_def dest!: set_dropWhileD)

lemma adjacent_spaces_append:
  "adjacent_spaces (xs @ ys) \<longleftrightarrow>
     adjacent_spaces xs \<or> adjacent_spaces ys \<or> (xs \<noteq> [] \<and> ys \<noteq> [] \<and> last xs = 32 \<and> hd ys = 32)"
proof (induction xs rule: adjacent_spaces.induct)
  case 1
  show ?case by simp
next
  case (2 c)
  show ?case by (cases ys) auto
next
  case (3 a b cs)
  then show ?case by auto
qed

lemma isolated_no_adjacent_spaces:
  assumes "P 32" and "isolated P t"
  shows "\<not> adjacent_spaces t"
  using assms(2)
proof (induction t rule: adjacent_spaces.induct)
  case 1
  show ?case by simp
next
  case (2 c)
  show ?case by simp
next
  case (3 a b cs)
  from "3.prems" have step: "P a \<longrightarrow> a = 32 \<and> \<not> P b" and rest: "isolated P (b # cs)"
    by simp_all
  have "\<not> (a = 32 \<and> b = 32)"
  proof
    assume "a = 32 \<and> b = 32"
    with assms(1) have "P a" "P b" by blast+
    with step show False by blast
  qed
  moreover have "\<not> adjacent_spaces (b # cs)"
    using "3.IH" rest by blast
  ultimately show ?case by simp
qed

lemma strip_split: "dropWhile is_space s = strip s @ rev (takeWhile is_space (rev (dropWhile is_space s)))"
proof -
  let ?d = "dropWhile is_space s"
  have "?d = rev (takeWhile is_space (rev ?d) @ dropWhile is_space (rev ?d))"
    by (simp only: takeWhile_dropWhile_id rev_rev_ident)
  also have "\<dots> = rev (dropWhile is_space (rev ?d)) @ rev (takeWhile is_space (rev ?d))"
    by (rule rev_append)
  finally show ?thesis by (simp only: strip_def)
qed

lemma strip_decompose: "\<exists>pre suf. s = pre @ strip s @ suf"
proof (intro exI)
  show "s = takeWhile is_space s @ strip s @ rev (takeWhile is_space (rev (dropWhile is_space s)))"
    by (simp only: strip_split [symmetric] takeWhile_dropWhile_id)
qed

lemma strip_ends:
  assumes "strip s \<noteq> []"
  shows "\<not> is_space (hd (strip s)) \<and> \<not> is_space (last (strip s))"
proof -
  let ?d = "dropWhile is_space s"
  let ?e = "dropWhile is_space (rev ?d)"
  have e: "?e \<noteq> []" using assms by (simp only: strip_def rev_is_Nil_conv not_False_eq_True)
  then have l: "\<not> is_space (hd ?e)" by (rule hd_dropWhile)
  have last: "last (strip s) = hd ?e" using e by (simp only: strip_def last_rev)
  have d: "?d \<noteq> []"
  proof
    assume a: "?d = []"
    have "?e = []" unfolding a by simp
    with e show False by contradiction
  qed
  then have hd: "\<not> is_space (hd ?d)" by (rule hd_dropWhile)
  have "hd (strip s @ rev (takeWhile is_space (rev ?d))) = hd (strip s)"
    by (rule hd_append2 [OF assms])
  then have "hd ?d = hd (strip s)"
    by (simp only: strip_split [symmetric])
  with hd l last show ?thesis by simp
qed


lemma not_kept_space: "\<not> kept 32"
  by (simp add: kept_def ascii_lower_def ascii_upper_def punct_def)

lemma quote_or_space_not_kept: "\<forall>c. quote_or_space c \<longrightarrow> \<not> kept c"
  by (auto simp: quote_or_space_def kept_def ascii_lower_def ascii_upper_def punct_def)

lemma is_space_32: "is_space 32"
  by (simp add: is_space_def)

lemma strip_no_adjacent_spaces:
  assumes t: "\<not> adjacent_spaces t" and m: "strip t \<noteq> []"
  shows "\<not> adjacent_spaces ([32] @ strip t @ [32])"
proof -
  obtain pre suf where "t = pre @ strip t @ suf"
    using strip_decompose [of t] by blast
  then have "adjacent_spaces (pre @ strip t @ suf) = adjacent_spaces t" by simp
  with t have inner: "\<not> adjacent_spaces (strip t)"
    by (simp only: adjacent_spaces_append) blast
  from strip_ends [OF m] is_space_32 have ends: "hd (strip t) \<noteq> 32" "last (strip t) \<noteq> 32"
    by auto
  have tail: "\<not> adjacent_spaces (strip t @ [32])"
    using inner ends(2) m by (simp add: adjacent_spaces_append)
  from tail ends(1) m show ?thesis
    using adjacent_spaces_append [of "[32]" "strip t @ [32]"] by simp
qed

text \<open>
  C6 (as amended).  \<open>preprocess_sentence\<close> computes what the listed passes compute
  (lowercase and strip, remove the accents, spaces around the punctuation, every maximal run of
  other characters to one space, collapse repeated spaces, strip, add the tokens).  Its result
  is \<open><start>\<close>, a space, an interior, a space, \<open><end>\<close>; the interior holds only
  lowercase letters, the listed punctuation and spaces, and when the interior is not empty no
  two spaces are adjacent anywhere between the two tokens.
\<close>

theorem preprocess_sentence_tokens:
  "preprocess_sentence (tables_of py) w = preprocess_as_specified (tables_of py) w
   \<and> (\<exists>m. preprocess_sentence (tables_of py) w = START @ [32] @ m @ [32] @ END
          \<and> (\<forall>c\<in>set m. ascii_lower c \<or> punct c \<or> c = 32)
          \<and> (m \<noteq> [] \<longrightarrow> \<not> adjacent_spaces ([32] @ m @ [32])))"
proof -
  define db where "db = tables_of py"
  define s0 where "s0 = unicode_to_ascii db (strip (lower db w))"
  define s1 where "s1 = pad_punct s0"
  define t where "t = sub_runs (\<lambda>c. \<not> kept c) s1"
  define m where "m = strip t"
  have code: "preprocess_sentence db w = START @ [32] @ m @ [32] @ END"
    using sub_runs_absorb [OF quote_or_space_not_kept, of s1] not_kept_space
    by (simp add: preprocess_sentence_def Let_def m_def t_def s1_def s0_def)
  have iso: "isolated (\<lambda>c. \<not> kept c) t"
    unfolding t_def by (rule isolated_sub_runs)
  have "sub_runs (\<lambda>c. c = 32) t = t"
    using not_kept_space iso by (intro sub_runs_isolated [where P = "\<lambda>c. \<not> kept c"]) auto
  then have spec: "preprocess_as_specified db w = START @ [32] @ m @ [32] @ END"
    by (simp add: preprocess_as_specified_def Let_def m_def t_def s1_def s0_def)
  have mt: "set m \<subseteq> set t"
    unfolding m_def by (rule strip_set)
  have ts: "set t \<subseteq> {c \<in> set s1. kept c} \<union> {32}"
    using sub_runs_set [of "\<lambda>c. \<not> kept c" s1] by (simp add: t_def)
  have s10: "set s1 \<subseteq> set s0 \<union> {32}"
    unfolding s1_def by (rule pad_punct_set)
  have "set (strip (lower db w)) \<subseteq> set (lower db w)"
    by (rule strip_set)
  then have "\<forall>c\<in>set (normalize_NFD db (strip (lower db w))). \<not> ascii_upper c"
    using tables_of [of py] unfolding db_def by blast
  then have no_capital: "\<forall>c\<in>set s0. \<not> ascii_upper c"
    by (simp add: s0_def unicode_to_ascii_def)
  have lowercase: "\<forall>c\<in>set m. ascii_lower c \<or> punct c \<or> c = 32"
  proof
    fix c assume c: "c \<in> set m"
    show "ascii_lower c \<or> punct c \<or> c = 32"
    proof (cases "c = 32")
      case False
      with c mt ts have "c \<in> set s1" "kept c" by auto
      with s10 False have "c \<in> set s0" by auto
      with no_capital have "\<not> ascii_upper c" by blast
      with \<open>kept c\<close> show ?thesis by (auto simp: kept_def)
    qed simp
  qed
  have spaces: "\<not> adjacent_spaces ([32] @ m @ [32])" if "m \<noteq> []"
    using that isolated_no_adjacent_spaces [OF _ iso] not_kept_space
    unfolding m_def by (intro strip_no_adjacent_spaces) auto
  show ?thesis
    using code spec lowercase spaces unfolding db_def by auto
qed

theorem preprocess_sentence_tokens_witness:
  "preprocess_sentence (tables_of ascii_python) (codes ''May I borrow this book?'')
       = codes ''<start> may i borrow this book ? <end>''
   \<and> preprocess_as_specified (tables_of ascii_python) (codes ''May I borrow this book?'')
       = codes ''<start> may i borrow this book ? <end>''
   \<and> list_all (\<lambda>c. ascii_lower c \<or> punct c \<or> c = 32) (codes ''may i borrow this book ?'')
   \<and> \<not> adjacent_spaces (codes '' may i borrow this book ? '')"
  using preprocess_sentence_tokens [of ascii_python "codes ''May I borrow this book?''"]
  by (simp add: ascii_python.rep_eq preprocess_sentence_def preprocess_as_specified_def
      ascii_tables_def unicode_to_ascii_def strip_def pad_punct_def START_def END_def codes_def
      is_space_def quote_or_space_def kept_def ascii_lower_def ascii_upper_def punct_def)

text \<open>
  C6 as stated fails on the empty string (and on every string without a kept character): the
  result is \<open><start>\<close> and \<open><end>\<close> with two adjacent spaces between them.
\<close>

theorem preprocess_sentence_empty_interior:
  "preprocess_sentence (tables_of ascii_python) [] = codes ''<start>  <end>''
   \<and> adjacent_spaces (codes ''  '')"
  by (simp add: ascii_python.rep_eq preprocess_sentence_def ascii_tables_def
      unicode_to_ascii_def strip_def pad_punct_def START_def END_def codes_def)

section \<open>Translation: the decode loop of evaluate\<close>

lemma lookup_all_missing:
  assumes "\<exists>w\<in>set ws. m w = None"
  shows "\<exists>w\<in>set ws. m w = None \<and> lookup_all m ws = Inl (KeyError w)"
  using assms
proof (induction ws)
  case Nil
  then show ?case by simp
next
  case (Cons w ws)
  show ?case
  proof (cases "m w")
    case None
    then show ?thesis by simp
  next
    case (Some i)
    with Cons.prems have "\<exists>w\<in>set ws. m w = None" by auto
    from Cons.IH [OF this] obtain u where "u \<in> set ws" "m u = None" "lookup_all m ws = Inl (KeyError u)"
      by blast
    with Some show ?thesis by (auto simp: and_then_def)
  qed
qed

lemma lookup_all_present:
  assumes "\<forall>w\<in>set ws. m w \<noteq> None"
  shows "lookup_all m ws = Inr (map (\<lambda>w. the (m w)) ws)"
  using assms by (induction ws) (auto simp: and_then_def)

lemma expand_dims_token:
  "\<exists>xin. expand_dims (tensor_of_list [i]) 0 = Inr xin"
  by (simp add: expand_dims_def)

lemma greedy_decode_step:
  assumes "greedy_decode nb dv enc_out m (Suc n) x h = Inr steps"
  shows "\<exists>i word row.
           (word = END \<and> steps = [(i, word, row)])
         \<or> (word \<noteq> END \<and> (\<exists>h' rest. greedy_decode nb dv enc_out m n i h' = Inr rest
                                     \<and> steps = (i, word, row) # rest))"
  using assms
  by (auto simp: and_then_def split: sum.splits option.splits if_splits prod.splits) blast

lemma greedy_decode_length:
  "greedy_decode nb dv enc_out m n x h = Inr steps \<Longrightarrow> length steps \<le> n"
proof (induction n arbitrary: x h steps)
  case 0
  then show ?case by simp
next
  case (Suc n)
  from greedy_decode_step [OF Suc.prems] obtain i word row where
    "(word = END \<and> steps = [(i, word, row)])
      \<or> (word \<noteq> END \<and> (\<exists>h' rest. greedy_decode nb dv enc_out m n i h' = Inr rest
                                  \<and> steps = (i, word, row) # rest))"
    by blast
  then show ?case
  proof
    assume "word = END \<and> steps = [(i, word, row)]"
    then show ?thesis by simp
  next
    assume "word \<noteq> END \<and> (\<exists>h' rest. greedy_decode nb dv enc_out m n i h' = Inr rest
                                  \<and> steps = (i, word, row) # rest)"
    then obtain h' rest where r: "greedy_decode nb dv enc_out m n i h' = Inr rest"
        "steps = (i, word, row) # rest"
      by blast
    from Suc.IH [OF r(1)] r(2) show ?thesis by simp
  qed
qed

lemma greedy_decode_end_last:
  "greedy_decode nb dv enc_out m n x h = Inr steps \<Longrightarrow>
     \<forall>(i, word, row)\<in>set (butlast steps). word \<noteq> END"
proof (induction n arbitrary: x h steps)
  case 0
  then show ?case by simp
next
  case (Suc n)
  from greedy_decode_step [OF Suc.prems] obtain i word row where
    "(word = END \<and> steps = [(i, word, row)])
      \<or> (word \<noteq> END \<and> (\<exists>h' rest. greedy_decode nb dv enc_out m n i h' = Inr rest
                                  \<and> steps = (i, word, row) # rest))"
    by blast
  then show ?case
  proof
    assume "word = END \<and> steps = [(i, word, row)]"
    then show ?thesis by simp
  next
    assume w: "word \<noteq> END \<and> (\<exists>h' rest. greedy_decode nb dv enc_out m n i h' = Inr rest
                                  \<and> steps = (i, word, row) # rest)"
    then obtain h' rest where r: "greedy_decode nb dv enc_out m n i h' = Inr rest"
        "steps = (i, word, row) # rest"
      by blast
    from Suc.IH [OF r(1)] r(2) w show ?thesis by simp
  qed
qed

lemma greedy_decode_short:
  "greedy_decode nb dv enc_out m n x h = Inr steps \<Longrightarrow> length steps < n \<Longrightarrow>
     steps \<noteq> [] \<and> fst (snd (last steps)) = END"
proof (induction n arbitrary: x h steps)
  case 0
  then show ?case by simp
next
  case (Suc n)
  from greedy_decode_step [OF Suc.prems(1)] obtain i word row where
    s: "(word = END \<and> steps = [(i, word, row)])
      \<or> (word \<noteq> END \<and> (\<exists>h' rest. greedy_decode nb dv enc_out m n i h' = Inr rest
                                  \<and> steps = (i, word, row) # rest))"
    by blast
  then show ?case
  proof
    assume "word = END \<and> steps = [(i, word, row)]"
    then show ?thesis by simp
  next
    assume "word \<noteq> END \<and> (\<exists>h' rest. greedy_decode nb dv enc_out m n i h' = Inr rest
                                  \<and> steps = (i, word, row) # rest)"
    then obtain h' rest where r: "greedy_decode nb dv enc_out m n i h' = Inr rest"
        "steps = (i, word, row) # rest"
      by blast
    with Suc.prems(2) have "length rest < n" by simp
    from Suc.IH [OF r(1) this] r(2) show ?thesis by simp
  qed
qed

lemma store_row_next:
  "store_row (pre @ replicate (Suc n) (replicate m 0)) (length pre) w =
     and_then (plot_row m w) (\<lambda>row. Inr (pre @ row # replicate n (replicate m 0)))"
  by (simp add: store_row_def plot_row_def Let_def and_then_def nth_append)

lemma decode_loop_refines:
  assumes "expand_dims (tensor_of_list [x]) 0 = Inr xin"
  shows "decode_loop nb dv enc_out [length pre..<length pre + n] xin h result sentence
           (pre @ replicate n (replicate m 0)) =
         and_then (greedy_decode nb dv enc_out m n x h) (\<lambda>steps.
         Inr (result @ concat (map (\<lambda>(i, word, row). word @ [32]) steps), sentence,
              pre @ map (\<lambda>(i, word, row). row) steps
                @ replicate (n - length steps) (replicate m 0)))"
  using assms
proof (induction n arbitrary: x xin h result pre)
  case 0
  show ?case by (simp add: and_then_def)
next
  case (Suc n)
  let ?z = "replicate m (0 :: real)"
  have upt: "[length pre..<length pre + Suc n] = length pre # [Suc (length pre)..<Suc (length pre) + n]"
    by (simp add: upt_conv_Cons)
  note unfold = upt decode_loop.simps(2) greedy_decode.simps(2) Suc.prems store_row_next
  show ?case
  proof (cases "decoder nb dv xin h enc_out")
    case (Inl e)
    then show ?thesis by (simp only: unfold) (simp add: and_then_def)
  next
    case (Inr p)
    obtain pred h' aw where p: "p = (pred, h', aw)" by (cases p)
    show ?thesis
    proof (cases "plot_row m aw")
      case (Inl e)
      with Inr p show ?thesis by (simp only: unfold) (simp add: and_then_def)
    next
      case row: (Inr row)
      show ?thesis
      proof (cases "argmax_row0 pred")
        case (Inl e)
        with Inr p row show ?thesis by (simp only: unfold) (simp add: and_then_def)
      next
        case i: (Inr i)
        show ?thesis
        proof (cases "targ_lang_index_word nb i")
          case None
          with Inr p row i show ?thesis by (simp only: unfold) (simp add: and_then_def)
        next
          case (Some word)
          show ?thesis
          proof (cases "word = END")
            case True
            with Inr p row i Some show ?thesis by (simp only: unfold) (simp add: and_then_def)
          next
            case False
            obtain xin' where x': "expand_dims (tensor_of_list [i]) 0 = Inr xin'"
              using expand_dims_token by blast
            have "decode_loop nb dv enc_out [length (pre @ [row])..<length (pre @ [row]) + n] xin' h'
                (result @ word @ [32]) sentence ((pre @ [row]) @ replicate n ?z) =
              and_then (greedy_decode nb dv enc_out m n i h') (\<lambda>steps.
                Inr ((result @ word @ [32]) @ concat (map (\<lambda>(i, word, row). word @ [32]) steps),
                     sentence,
                     (pre @ [row]) @ map (\<lambda>(i, word, row). row) steps
                       @ replicate (n - length steps) ?z))"
              by (rule Suc.IH [OF x'])
            then have rec: "decode_loop nb dv enc_out [Suc (length pre)..<Suc (length pre) + n] xin' h'
                (result @ word @ [32]) sentence (pre @ row # replicate n ?z) =
              and_then (greedy_decode nb dv enc_out m n i h') (\<lambda>steps.
                Inr (result @ word @ 32 # concat (map (\<lambda>(i, word, row). word @ [32]) steps),
                     sentence,
                     pre @ row # map (\<lambda>(i, word, row). row) steps
                       @ replicate (n - length steps) ?z))"
              by simp
            show ?thesis
              using Inr p row i Some False x' rec
              by (simp only: unfold) (simp add: and_then_def split: sum.splits)
          qed
        qed
      qed
    qed
  qed
qed

lemma evaluate_refines:
  assumes vocab: "\<forall>w\<in>set (split_on 32 (preprocess_sentence (tables nb) sentence)).
                    inp_lang_word_index nb w \<noteq> None"
  shows "evaluate nb vars sentence = translation nb vars sentence"
proof -
  let ?s = "preprocess_sentence (tables nb) sentence"
  let ?ids = "map (\<lambda>w. the (inp_lang_word_index nb w)) (split_on 32 ?s)"
  let ?z = "replicate (max_length_inp nb) (0 :: real)"
  have ids: "lookup_all (inp_lang_word_index nb) (split_on 32 ?s) = Inr ?ids"
    using lookup_all_present [OF vocab] .
  have loop: "decode_loop nb dv enc_out [0..<max_length_targ nb] xin h0 [] ?s
        (replicate (max_length_targ nb) ?z) =
      and_then (greedy_decode nb dv enc_out (max_length_inp nb) (max_length_targ nb) start h0)
        (\<lambda>steps.
         Inr (concat (map (\<lambda>(i, word, row). word @ [32]) steps), ?s,
              map (\<lambda>(i, word, row). row) steps
                @ replicate (max_length_targ nb - length steps) ?z))"
    if "expand_dims (tensor_of_list [start]) 0 = Inr xin" for dv enc_out xin h0 start
    using decode_loop_refines [OF that, where pre = "[]" and n = "max_length_targ nb"
        and m = "max_length_inp nb" and result = "[]" and nb = nb and dv = dv
        and enc_out = enc_out and h = h0 and sentence = ?s]
    by simp
  show ?thesis
  proof (cases "targ_lang_word_index nb START")
    case None
    then show ?thesis
      by (simp add: evaluate_def translation_def Let_def ids and_then_def
          split: sum.splits prod.splits)
  next
    case (Some start)
    obtain xin where xin: "expand_dims (tensor_of_list [start]) 0 = Inr xin"
      using expand_dims_token by blast
    show ?thesis
      using Some xin loop [OF xin]
      by (simp add: evaluate_def translation_def Let_def ids and_then_def
          split: sum.splits prod.splits del: decode_loop.simps greedy_decode.simps)
  qed
qed

lemma store_row_fits:
  assumes "t < length plot" and "\<forall>r\<in>set plot. length r = n"
    and "length (indices (shape w)) = n"
  shows "\<exists>plot'. store_row plot t w = Inr plot' \<and> length plot' = length plot
           \<and> (\<forall>r\<in>set plot'. length r = n)"
proof -
  let ?v = "map (el w) (indices (shape w))"
  have "length (plot ! t) = n" using assms(1,2) by simp
  then have "store_row plot t w = Inr (plot[t := ?v])"
    using assms(1,3) by (simp add: store_row_def Let_def)
  moreover have "\<forall>r\<in>set (plot[t := ?v]). length r = n"
    using assms(2,3) set_update_subset_insert [of plot t ?v] by auto
  ultimately show ?thesis by simp
qed

lemma upt_1_4: "[Suc 0..<4] = [1, 2, 3]"
  by code_simp

lemmas preprocess_defs = preprocess_sentence_def ascii_tables_def unicode_to_ascii_def strip_def
  pad_punct_def START_def END_def codes_def is_space_def quote_or_space_def kept_def
  ascii_lower_def ascii_upper_def punct_def

lemma demo_words_hi:
  "split_on 32 (preprocess_sentence (tables demo_notebook) (codes ''hi'')) = [START, codes ''hi'', END]"
  by (simp add: demo_notebook_def preprocess_defs)

lemma demo_sentence_hi:
  "preprocess_sentence (tables demo_notebook) (codes ''hi'') = codes ''<start> hi <end>''"
  by (simp add: demo_notebook_def preprocess_defs)

lemma expand_dims_token_el:
  "expand_dims (tensor_of_list [x]) 0 = Inr xin \<Longrightarrow> el xin [0, 0] = x"
  by (auto simp: expand_dims_def tensor_of_list_def)

lemma decode_loop_key_error:
  assumes "decoder nb dv xin h enc_out = Inr (pred, h', aw)"
    and "store_row plot t aw = Inr plot'"
    and "argmax_row0 pred = Inr i"
    and "targ_lang_index_word nb i = None"
  shows "decode_loop nb dv enc_out (t # ts) xin h result sentence plot = Inl (KeyErrorId i)"
  using assms by (simp add: and_then_def)

lemma demo_greedy_step:
  assumes "expand_dims (tensor_of_list [x]) 0 = Inr xin"
  shows "decoder demo_notebook dv xin h enc_out =
           Inr (\<lparr>shape = [1, 4],
                 el = (\<lambda>idx. if idx = [0, if x = 1 then 3 else 2] then 1 else 0)\<rparr>,
                h, \<lparr>shape = [1, 3, 1], el = (\<lambda>idx. 1 / 2)\<rparr>)"
    and "plot_row 3 \<lparr>shape = [1, 3, 1], el = (\<lambda>idx. 1 / 2)\<rparr> = Inr [1 / 2, 1 / 2, 1 / 2]"
    and "argmax_row0 \<lparr>shape = [1, 4],
            el = (\<lambda>idx. if idx = [0, if x = 1 then 3 else 2] then (1 :: real) else 0)\<rparr>
         = Inr (if x = 1 then 3 else 2)"
  using expand_dims_token_el [OF assms]
  by (simp_all add: demo_notebook_def plot_row_def argmax_row0_def upt_1_4 numeral_3_eq_3)

lemma demo_greedy_decode:
  "greedy_decode demo_notebook dv enc_out 3 (Suc (Suc n)) 1 h =
     Inr [(3, codes ''hello'', [1 / 2, 1 / 2, 1 / 2]), (2, END, [1 / 2, 1 / 2, 1 / 2])]"
proof -
  obtain x1 where x1: "expand_dims (tensor_of_list [1]) 0 = Inr x1"
    using expand_dims_token by blast
  obtain x3 where x3: "expand_dims (tensor_of_list [3]) 0 = Inr x3"
    using expand_dims_token by blast
  have words: "targ_lang_index_word demo_notebook 3 = Some (codes ''hello'')"
      "targ_lang_index_word demo_notebook 2 = Some END" "codes ''hello'' \<noteq> END"
    by (simp_all add: demo_notebook_def END_def codes_def)
  have last: "greedy_decode demo_notebook dv enc_out 3 (Suc n) 3 h =
      Inr [(2, END, [1 / 2, 1 / 2, 1 / 2])]"
    using demo_greedy_step [OF x3] x3 words
    by (simp add: and_then_def)
  show ?thesis
    using demo_greedy_step [OF x1] x1 words last
    by (simp add: and_then_def del: greedy_decode.simps(2))
      (simp add: and_then_def)
qed

text \<open>
  C7 (as amended).  For a sentence whose preprocessed words all occur in the input
  vocabulary, \<open>evaluate\<close> is the translation the specification describes: the padded word ids
  go through the encoder, and the decode loop is greedy decoding from \<open><start>\<close>, each step
  feeding the previous step's most likely token id back to the decoder.  Whenever the padding,
  the encoder, the lookup of \<open><start>\<close> and greedy decoding succeed, \<open>evaluate\<close> returns the
  result string (the words of the steps, each followed by a space), the preprocessed sentence
  and the attention plot (one row per step, then rows of zeros); an exception of one of them is
  the exception of \<open>evaluate\<close>.  A run of greedy decoding that returns has made at most
  \<open>max_length_targ\<close> steps, none of its steps before the last has the word \<open><end>\<close>,
  and when it has made fewer than \<open>max_length_targ\<close> steps the last one has the word
  \<open><end>\<close>.
\<close>

theorem evaluate_greedy:
  assumes vocab: "\<forall>w\<in>set (split_on 32 (preprocess_sentence (tables nb) sentence)).
                    inp_lang_word_index nb w \<noteq> None"
  shows "evaluate nb vars sentence = translation nb vars sentence
       \<and> (\<forall>dv enc_out start h0 steps.
            greedy_decode nb dv enc_out (max_length_inp nb) (max_length_targ nb) start h0
              = Inr steps \<longrightarrow>
              length steps \<le> max_length_targ nb
            \<and> (\<forall>(i, word, row)\<in>set (butlast steps). word \<noteq> END)
            \<and> (length steps < max_length_targ nb \<longrightarrow>
                 steps \<noteq> [] \<and> fst (snd (last steps)) = END))"
proof -
  have "length steps \<le> max_length_targ nb
      \<and> (\<forall>(i, word, row)\<in>set (butlast steps). word \<noteq> END)
      \<and> (length steps < max_length_targ nb \<longrightarrow> steps \<noteq> [] \<and> fst (snd (last steps)) = END)"
    if "greedy_decode nb dv enc_out (max_length_inp nb) (max_length_targ nb) start h0 = Inr steps"
    for dv enc_out start h0 steps
    using greedy_decode_length [OF that] greedy_decode_end_last [OF that]
      greedy_decode_short [OF that]
    by blast
  with evaluate_refines [OF vocab] show ?thesis
    by blast
qed

theorem evaluate_greedy_witness:
  "list_all (\<lambda>w. inp_lang_word_index demo_notebook w \<noteq> None)
     (split_on 32 (preprocess_sentence (tables demo_notebook) (codes ''hi'')))
   \<and> evaluate demo_notebook demo_variables (codes ''hi'') =
       Inr (codes ''hello <end> '', codes ''<start> hi <end>'',
            [[1 / 2, 1 / 2, 1 / 2], [1 / 2, 1 / 2, 1 / 2], [0, 0, 0]])"
proof -
  have vocab: "\<forall>w\<in>set (split_on 32 (preprocess_sentence (tables demo_notebook) (codes ''hi''))).
      inp_lang_word_index demo_notebook w \<noteq> None"
    unfolding demo_words_hi by (simp add: demo_notebook_def START_def END_def codes_def)
  have ids: "map (\<lambda>w. the (inp_lang_word_index demo_notebook w)) [START, codes ''hi'', END]
      = [1, 3, 2]"
    by (simp add: demo_notebook_def START_def END_def codes_def)
  have demo: "max_length_inp demo_notebook = 3" "max_length_targ demo_notebook = 3"
      "targ_lang_word_index demo_notebook START = Some 1"
      "encoder demo_notebook ev inputs hidden = Inr (zeros [1, 3, 1], zeros [1, 1])"
    for ev inputs hidden
    by (simp_all add: demo_notebook_def)
  have pad: "pad_sequence [1, 3, 2] 3 = Inr [1, 3, 2]"
    by (simp add: pad_sequence_def)
  have run: "greedy_decode demo_notebook dv enc_out 3 3 1 h =
      Inr [(3, codes ''hello'', [1 / 2, 1 / 2, 1 / 2]), (2, END, [1 / 2, 1 / 2, 1 / 2])]"
    for dv :: "nat list" and enc_out h
    using demo_greedy_decode [of dv enc_out 1 h] by (simp add: numeral_3_eq_3)
  have rest: "replicate (3 - length [a, b]) (replicate 3 (0 :: real)) = [[0, 0, 0]]"
    for a b :: "nat \<times> ustr \<times> real list"
    by (simp add: numeral_3_eq_3)
  have "translation demo_notebook demo_variables (codes ''hi'') =
      Inr (concat (map (\<lambda>(i, word, row). word @ [32])
                    [(3 :: nat, codes ''hello'', [1 / 2, 1 / 2, 1 / 2 :: real]),
                     (2, END, [1 / 2, 1 / 2, 1 / 2])]),
           preprocess_sentence (tables demo_notebook) (codes ''hi''),
           [[1 / 2, 1 / 2, 1 / 2], [1 / 2, 1 / 2, 1 / 2], [0, 0, 0]])"
    using ids pad run rest demo
    by (simp add: translation_def Let_def demo_words_hi and_then_def)
  then have "translation demo_notebook demo_variables (codes ''hi'') =
      Inr (codes ''hello <end> '', codes ''<start> hi <end>'',
           [[1 / 2, 1 / 2, 1 / 2], [1 / 2, 1 / 2, 1 / 2], [0, 0, 0]])"
    unfolding demo_sentence_hi by (simp add: END_def codes_def)
  with evaluate_greedy [OF vocab, of demo_variables] vocab show ?thesis
    by (simp add: list_all_iff)
qed

text \<open>
  C7 as stated fails when the most likely token has no word: the decoder's logits cover the
  padding id 0, which \<open>targ_lang.index_word\<close> does not hold; when its logit is the largest,
  \<open>evaluate\<close> raises a key-lookup error although every word of the sentence is in the input
  vocabulary.
\<close>

theorem evaluate_padding_id:
  "list_all (\<lambda>w. inp_lang_word_index padding_decoder_notebook w \<noteq> None)
     (split_on 32 (preprocess_sentence (tables padding_decoder_notebook) (codes ''hi'')))
   \<and> evaluate padding_decoder_notebook demo_variables (codes ''hi'') = Inl (KeyErrorId 0)"
proof -
  let ?nb = padding_decoder_notebook
  let ?plot = "replicate (max_length_targ ?nb) (replicate (max_length_inp ?nb) (0 :: real))"
  have t: "tables ?nb = tables demo_notebook"
    by (simp add: padding_decoder_notebook_def)
  have words: "split_on 32 (preprocess_sentence (tables ?nb) (codes ''hi'')) = [START, codes ''hi'', END]"
    unfolding t by (rule demo_words_hi)
  have lookup: "lookup_all (inp_lang_word_index ?nb) [START, codes ''hi'', END] = Inr [1, 3, 2]"
    by (simp add: padding_decoder_notebook_def demo_notebook_def START_def END_def codes_def and_then_def)
  have enc: "encoder ?nb ev inputs hidden = Inr (zeros [1, 3, 1], zeros [1, 1])" for ev inputs hidden
    by (simp add: padding_decoder_notebook_def demo_notebook_def)
  have start: "targ_lang_word_index ?nb START = Some 1"
    by (simp add: padding_decoder_notebook_def demo_notebook_def)
  obtain xin where xin: "expand_dims (tensor_of_list [1]) 0 = Inr xin"
    using expand_dims_token by blast
  have dec: "decoder ?nb dv xin h (zeros [1, 3, 1]) = Inr (padding_logits, h, zeros [1, 3, 1])" for dv h
    by (simp add: padding_decoder_notebook_def demo_notebook_def)
  have mt: "max_length_targ ?nb = 3" and mi: "max_length_inp ?nb = 3"
    by (simp_all add: padding_decoder_notebook_def demo_notebook_def)
  have pad: "pad_sequence [1, 3, 2] (max_length_inp ?nb) = Inr [1, 3, 2]"
    by (simp add: mi pad_sequence_def)
  have "length (indices (shape (zeros [1, 3, 1]))) = 3"
    by (simp add: zeros_def numeral_3_eq_3)
  then obtain plot' where store: "store_row ?plot 0 (zeros [1, 3, 1]) = Inr plot'"
    using store_row_fits [of 0 ?plot 3 "zeros [1, 3, 1]"] by (auto simp: mt mi)
  have arg: "argmax_row0 padding_logits = Inr 0"
    by (simp add: argmax_row0_def padding_logits_def upt_1_4)
  have none: "targ_lang_index_word ?nb 0 = None"
    by (simp add: padding_decoder_notebook_def demo_notebook_def)
  have steps: "[0..<max_length_targ ?nb] = 0 # [1..<3]"
    by (simp add: mt upt_conv_Cons)
  have loop: "decode_loop ?nb dv (zeros [1, 3, 1]) [0..<max_length_targ ?nb] xin h [] s ?plot
      = Inl (KeyErrorId 0)" for dv h s
    unfolding steps by (rule decode_loop_key_error [OF dec store arg none])
  have "evaluate ?nb demo_variables (codes ''hi'') = Inl (KeyErrorId 0)"
    using xin loop [of "decoder_trainable_variables demo_variables" "zeros [1, 1]"
        "preprocess_sentence (tables ?nb) (codes ''hi'')"]
    using pad unfolding evaluate_def Let_def words lookup
    by (simp add: and_then_def enc start del: decode_loop.simps)
  moreover have "list_all (\<lambda>w. inp_lang_word_index ?nb w \<noteq> None)
     (split_on 32 (preprocess_sentence (tables ?nb) (codes ''hi'')))"
    unfolding words
    by (simp add: padding_decoder_notebook_def demo_notebook_def START_def END_def codes_def)
  ultimately show ?thesis by simp
qed

text \<open>
  C10.  When some word of the preprocessed sentence is missing from the input vocabulary,
  \<open>evaluate\<close> raises the key-lookup error of such a word, whatever the encoder, the decoder
  and their variables are: the lookup fails before either is called.
\<close>

theorem evaluate_unknown_word:
  assumes "\<exists>w\<in>set (split_on 32 (preprocess_sentence (tables nb) sentence)).
             inp_lang_word_index nb w = None"
  shows "\<exists>w\<in>set (split_on 32 (preprocess_sentence (tables nb) sentence)).
           inp_lang_word_index nb w = None
         \<and> evaluate nb vars sentence = Inl (KeyError w)
         \<and> (\<forall>enc dec vars'.
               evaluate (nb\<lparr>encoder := enc, decoder := dec\<rparr>) vars' sentence = Inl (KeyError w))"
proof -
  obtain w where w: "w \<in> set (split_on 32 (preprocess_sentence (tables nb) sentence))"
      "inp_lang_word_index nb w = None"
      "lookup_all (inp_lang_word_index nb) (split_on 32 (preprocess_sentence (tables nb) sentence))
         = Inl (KeyError w)"
    using lookup_all_missing [OF assms] by blast
  have "evaluate (nb\<lparr>encoder := enc, decoder := dec\<rparr>) vars' sentence = Inl (KeyError w)"
    for enc dec vars'
    using w(3) by (simp add: evaluate_def Let_def and_then_def)
  moreover have "evaluate nb vars sentence = Inl (KeyError w)"
    using w(3) by (simp add: evaluate_def Let_def and_then_def)
  ultimately show ?thesis using w(1,2) by blast
qed

theorem evaluate_unknown_word_witness:
  "list_ex (\<lambda>w. inp_lang_word_index demo_notebook w = None)
     (split_on 32 (preprocess_sentence (tables demo_notebook) (codes ''hi you'')))
   \<and> evaluate demo_notebook demo_variables (codes ''hi you'') = Inl (KeyError (codes ''you''))"
proof -
  have w: "split_on 32 (preprocess_sentence (tables demo_notebook) (codes ''hi you''))
      = [START, codes ''hi'', codes ''you'', END]"
    by (simp add: demo_notebook_def preprocess_defs)
  have idx: "inp_lang_word_index demo_notebook START = Some 1"
      "inp_lang_word_index demo_notebook (codes ''hi'') = Some 3"
      "inp_lang_word_index demo_notebook (codes ''you'') = None"
      "inp_lang_word_index demo_notebook END = Some 2"
    by (simp_all add: demo_notebook_def START_def END_def codes_def)
  have missing: "\<exists>w\<in>set (split_on 32 (preprocess_sentence (tables demo_notebook) (codes ''hi you''))).
      inp_lang_word_index demo_notebook w = None"
    unfolding w using idx(3) by simp
  from evaluate_unknown_word [OF missing, of demo_variables]
  obtain u where "u \<in> set [START, codes ''hi'', codes ''you'', END]"
      "inp_lang_word_index demo_notebook u = None"
      "evaluate demo_notebook demo_variables (codes ''hi you'') = Inl (KeyError u)"
    unfolding w by blast
  with idx have "evaluate demo_notebook demo_variables (codes ''hi you'') = Inl (KeyError (codes ''you''))"
    by auto
  with missing show ?thesis by (simp add: list_ex_iff)
qed

section \<open>Training: the teacher-forcing loop of train_step\<close>

lemma py_value_simps:
  "py_value (PyInt i) = of_int i" "py_value (PyFloat r) = r" "py_value (TfScalar r) = r"
  by (simp_all add: py_value_def)


lemma slice_column_rank2:
  assumes "shape targ = [B, T]" and "t < T"
  shows "\<exists>c. slice_column targ t = Inr c \<and> shape c = [B]"
  using assms by (simp add: slice_column_def)

lemma expand_dims_rank1:
  assumes "shape c = [B]"
  shows "\<exists>x. expand_dims c 1 = Inr x \<and> shape x = [B, 1]"
  using assms by (simp add: expand_dims_def)

lemma teacher_input_next:
  assumes "shape targ = [B, T]" and "1 \<le> t" and "t < T"
  shows "\<exists>c x. slice_column targ t = Inr c \<and> expand_dims c 1 = Inr x
           \<and> teacher_input nb targ (Suc t) = Inr x"
proof -
  obtain c where c: "slice_column targ t = Inr c" "shape c = [B]"
    using slice_column_rank2 [OF assms(1,3)] by blast
  obtain x where x: "expand_dims c 1 = Inr x"
    using expand_dims_rank1 [OF c(2)] by blast
  have "teacher_input nb targ (Suc t) = Inr x"
    using assms(2) c(1) x by (simp add: teacher_input_def and_then_def)
  with c(1) x show ?thesis by blast
qed

text \<open>One run of the loop body from a state whose decoder input is the teacher input.\<close>

lemma train_step_body_run:
  assumes sh: "shape targ = [B, T]" and t: "1 \<le> t" "t < T"
    and x: "teacher_input nb targ t = Inr (dec_input st)"
  shows "\<exists>c x'. slice_column targ t = Inr c \<and> teacher_input nb targ (Suc t) = Inr x'
     \<and> train_step_body nb dv targ enc_output t st =
         and_then (decoder nb dv (dec_input st) (dec_hidden st) enc_output) (\<lambda>(predictions, h', _).
         and_then (loss_function (loss_object nb) c predictions) (\<lambda>l.
         Inr \<lparr>loss = TfScalar (py_value (loss st) + el l []), dec_hidden = h', dec_input = x'\<rparr>))"
proof -
  obtain c x' where c: "slice_column targ t = Inr c" "expand_dims c 1 = Inr x'"
      "teacher_input nb targ (Suc t) = Inr x'"
    using teacher_input_next [OF sh t] by blast
  have "train_step_body nb dv targ enc_output t st =
         and_then (decoder nb dv (dec_input st) (dec_hidden st) enc_output) (\<lambda>(predictions, h', _).
         and_then (loss_function (loss_object nb) c predictions) (\<lambda>l.
         Inr \<lparr>loss = TfScalar (py_value (loss st) + el l []), dec_hidden = h', dec_input = x'\<rparr>))"
    using c(1,2)
    by (auto simp: train_step_body_def and_then_def add_tensor_def Let_def
        split: sum.splits prod.splits)
  with c(1,3) show ?thesis by blast
qed




lemma train_step_body_tensor:
  "train_step_body nb dv targ enc_output t st = Inr st' \<Longrightarrow> \<exists>r. loss st' = TfScalar r"
  by (auto simp: train_step_body_def and_then_def add_tensor_def Let_def
      split: sum.splits prod.splits if_splits)

lemma for_each_body_tensor:
  assumes "for_each (train_step_body nb dv targ enc_output) ts st = Inr f"
    and "ts \<noteq> [] \<or> (\<exists>r. loss st = TfScalar r)"
  shows "\<exists>r. loss f = TfScalar r"
  using assms
proof (induction ts arbitrary: st)
  case Nil
  then show ?case by simp
next
  case (Cons t ts)
  from Cons.prems(1) obtain st' where st': "train_step_body nb dv targ enc_output t st = Inr st'"
      "for_each (train_step_body nb dv targ enc_output) ts st' = Inr f"
    by (auto simp: and_then_def split: sum.splits)
  from train_step_body_tensor [OF st'(1)] Cons.IH [OF st'(2)] show ?case by blast
qed

lemma loop_refines:
  assumes sh: "shape targ = [B, T]" and a: "1 \<le> a" "a \<le> T"
  shows "(a < T \<Longrightarrow> teacher_input nb targ a = Inr (dec_input st)) \<Longrightarrow>
     and_then (for_each (train_step_body nb dv targ enc_output) [a..<T] st)
        (\<lambda>f. Inr (py_value (loss f)))
     = teacher_forced_loss nb dv targ enc_output [a..<T] (dec_hidden st) (py_value (loss st))"
  using a(2,1)
proof (induction a arbitrary: st rule: inc_induct)
  case base
  show ?case by (simp add: and_then_def)
next
  case (step n)
  let ?body = "train_step_body nb dv targ enc_output"
  have n1: "1 \<le> n" using step.prems(2) by simp
  have x: "teacher_input nb targ n = Inr (dec_input st)" using step.prems(1) step.hyps(2) by simp
  obtain c x' where c: "slice_column targ n = Inr c" "teacher_input nb targ (Suc n) = Inr x'"
      "?body n st =
         and_then (decoder nb dv (dec_input st) (dec_hidden st) enc_output) (\<lambda>(predictions, h', _).
         and_then (loss_function (loss_object nb) c predictions) (\<lambda>l.
         Inr \<lparr>loss = TfScalar (py_value (loss st) + el l []), dec_hidden = h', dec_input = x'\<rparr>))"
    using train_step_body_run [OF sh n1 step.hyps(2) x, of dv enc_output] by blast
  have up: "[n..<T] = n # [Suc n..<T]" using step.hyps(2) by (simp add: upt_conv_Cons)
  show ?case
  proof (cases "decoder nb dv (dec_input st) (dec_hidden st) enc_output")
    case (Inl e)
    then show ?thesis unfolding up by (simp add: c x and_then_def)
  next
    case (Inr r)
    obtain predictions h' aw where r: "r = (predictions, h', aw)" by (cases r)
    show ?thesis
    proof (cases "loss_function (loss_object nb) c predictions")
      case (Inl e)
      then show ?thesis unfolding up using Inr r by (simp add: c x and_then_def)
    next
      case l: (Inr l)
      let ?st' = "\<lparr>loss = TfScalar (py_value (loss st) + el l []), dec_hidden = h', dec_input = x'\<rparr>"
      have "and_then (for_each ?body [Suc n..<T] ?st') (\<lambda>f. Inr (py_value (loss f)))
          = teacher_forced_loss nb dv targ enc_output [Suc n..<T] (dec_hidden ?st') (py_value (loss ?st'))"
        using c(2) by (intro step.IH) simp_all
      then show ?thesis unfolding up using Inr r l
        by (simp add: c x and_then_def py_value_simps)
    qed
  qed
qed


lemma expand_dims_start:
  "\<exists>x. expand_dims (tensor_of_list xs) 1 = Inr x"
  by (simp add: expand_dims_def tensor_of_list_def)

lemma taped_refines:
  assumes sh: "shape targ = [B, T]" and T: "2 \<le> T"
  shows "(case taped nb ev dv inp targ enc_hidden of
            Inl e \<Rightarrow> Inl e
          | Inr final \<Rightarrow> Inr (py_value (loss final)))
       = and_then (encoder nb ev inp enc_hidden) (\<lambda>(enc_output, h).
           teacher_forced_loss nb dv targ enc_output [1..<T] h 0)
     \<and> (\<forall>final. taped nb ev dv inp targ enc_hidden = Inr final \<longrightarrow> (\<exists>r. loss final = TfScalar r))"
proof (cases "encoder nb ev inp enc_hidden")
  case (Inl e)
  then show ?thesis by (simp add: taped_def and_then_def)
next
  case (Inr r)
  obtain enc_output h where r: "r = (enc_output, h)" by (cases r)
  have up: "[1..<T] = 1 # [Suc 1..<T]" using T by (intro upt_conv_Cons) simp
  show ?thesis
  proof (cases "targ_lang_word_index nb START")
    case None
    then show ?thesis unfolding up using Inr r
      by (simp add: taped_def and_then_def teacher_input_def)
  next
    case (Some start)
    obtain x0 where x0: "expand_dims (tensor_of_list (replicate (BATCH_SIZE nb) start)) 1 = Inr x0"
      using expand_dims_start by blast
    let ?init = "\<lparr>loss = PyInt 0, dec_hidden = h, dec_input = x0\<rparr>"
    let ?loop = "for_each (train_step_body nb dv targ enc_output) [1..<T] ?init"
    have t1: "teacher_input nb targ 1 = Inr (dec_input ?init)"
      using Some x0 by (simp add: teacher_input_def)
    have run: "taped nb ev dv inp targ enc_hidden = ?loop"
      using Inr r Some x0 sh by (simp add: taped_def and_then_def)
    have "and_then ?loop (\<lambda>f. Inr (py_value (loss f)))
        = teacher_forced_loss nb dv targ enc_output [1..<T] (dec_hidden ?init) (py_value (loss ?init))"
      using T t1 by (intro loop_refines [OF sh]) simp_all
    then have first: "(case ?loop of Inl e \<Rightarrow> Inl e | Inr final \<Rightarrow> Inr (py_value (loss final)))
        = teacher_forced_loss nb dv targ enc_output [1..<T] h 0"
      by (simp add: and_then_def py_value_simps)
    have "[1..<T] \<noteq> []" using T by simp
    then have "\<exists>r. loss final = TfScalar r" if "?loop = Inr final" for final
      using for_each_body_tensor [OF that] by blast
    with first show ?thesis unfolding run using Inr r by (simp add: and_then_def)
  qed
qed

lemma demo_loss_function:
  assumes "shape y = [1]"
  shows "\<exists>l. loss_function (loss_object demo_notebook) y p = Inr l \<and> shape l = []
           \<and> el l [] = (if el y [0] = 0 then 0 else 1)"
  using assms
  by (simp add: loss_function_def demo_notebook_def and_then_def mul_def broadcast_op_def
      broadcast_shape_same reduce_mean_def cast_float_def logical_not_def equal_scalar_def
      bidx_def)

lemma upt_1_2: "[Suc 0..<2] = [1]"
  by code_simp

lemma demo_teacher_input_start:
  "\<exists>x0. teacher_input demo_notebook targ 1 = Inr x0 \<and> el x0 [0, 0] = 1"
  by (simp add: teacher_input_def demo_notebook_def expand_dims_def tensor_of_list_def)

lemma demo_decoder:
  "\<exists>pred aw. decoder demo_notebook dv x h enc = Inr (pred, h, aw)"
  by (simp add: demo_notebook_def)



text \<open>
  C4 (as amended).  For a target batch of shape (batch, T) with T \<ge> 2, \<open>train_step\<close> is
  the following computation: accumulate over the decode steps t = 1 .. T - 1 the masked loss
  between the target tokens of step t and the decoder's predictions on the teacher input; take
  the gradient of this accumulated loss with respect to the encoder's variables followed by the
  decoder's; apply the gradients with the optimizer; return the accumulated loss divided by T
  together with the updated variables.  An exception of any step is the exception of
  \<open>train_step\<close>.
\<close>

theorem train_step_accumulates:
  assumes sh: "shape targ = [B, T]" and T: "2 \<le> T"
  shows "train_step nb vars inp targ enc_hidden =
     (let n = length (encoder_trainable_variables vars);
          variables = encoder_trainable_variables vars @ decoder_trainable_variables vars in
      and_then (accumulated_loss nb n inp targ enc_hidden variables) (\<lambda>total.
      and_then (tape_gradient nb (accumulated_loss nb n inp targ enc_hidden) variables) (\<lambda>gradients.
      and_then (apply_gradients nb (optimizer vars) (zip gradients variables))
        (\<lambda>(optimizer', variables').
      Inr (TfScalar (total / real T),
           \<lparr>encoder_trainable_variables = take n variables',
            decoder_trainable_variables = drop n variables',
            optimizer = optimizer'\<rparr>)))))"
proof -
  let ?ev = "encoder_trainable_variables vars" and ?dv = "decoder_trainable_variables vars"
  let ?n = "length ?ev"
  have same: "taped_loss nb ?n inp targ enc_hidden = accumulated_loss nb ?n inp targ enc_hidden"
  proof
    fix vs
    from taped_refines [OF sh T, of nb "take ?n vs" "drop ?n vs" inp enc_hidden]
    show "taped_loss nb ?n inp targ enc_hidden vs = accumulated_loss nb ?n inp targ enc_hidden vs"
      by (auto simp: taped_loss_def accumulated_loss_def sh and_then_def py_value_simps
          split: sum.splits)
  qed
  from taped_refines [OF sh T, of nb ?ev ?dv inp enc_hidden]
  have acc: "(case taped nb ?ev ?dv inp targ enc_hidden of
            Inl e \<Rightarrow> Inl e | Inr final \<Rightarrow> Inr (py_value (loss final)))
        = accumulated_loss nb ?n inp targ enc_hidden (?ev @ ?dv)"
    and tensor: "\<And>final. taped nb ?ev ?dv inp targ enc_hidden = Inr final \<Longrightarrow> \<exists>r. loss final = TfScalar r"
    by (simp_all add: accumulated_loss_def sh)
  show ?thesis
  proof (cases "taped nb ?ev ?dv inp targ enc_hidden")
    case (Inl e)
    with acc have "accumulated_loss nb ?n inp targ enc_hidden (?ev @ ?dv) = Inl e"
      by simp
    with Inl show ?thesis by (simp add: train_step_def and_then_def Let_def)
  next
    case (Inr final)
    then obtain r where r: "loss final = TfScalar r" using tensor by blast
    with acc Inr have "accumulated_loss nb ?n inp targ enc_hidden (?ev @ ?dv) = Inr r"
      by (simp add: py_value_simps)
    with Inr r show ?thesis
      by (simp add: train_step_def and_then_def Let_def div_int_def same sh)
  qed
qed

theorem train_step_accumulates_witness:
  "shape (row_tensor [1, 3]) = [1, 2] \<and> (2 :: nat) \<le> 2
   \<and> train_step demo_notebook demo_variables (row_tensor [1, 3, 2]) (row_tensor [1, 3])
        (zeros [1, 1]) = Inr (TfScalar (1 / 2), demo_variables)"
proof -
  let ?targ = "row_tensor [1, 3]" and ?inp = "row_tensor [1, 3, 2]"
  have sh: "shape ?targ = [1, 2]" by (simp add: row_tensor_def)
  have up: "[1..<shape ?targ ! 1] = [1]" unfolding sh by (simp add: upt_1_2)
  obtain c where c: "slice_column ?targ 1 = Inr c" "shape c = [1]" "el c [0] = 3"
    by (simp add: slice_column_def row_tensor_def)
  obtain x0 where x0: "teacher_input demo_notebook ?targ 1 = Inr x0"
    using demo_teacher_input_start by blast
  obtain pred aw where d: "decoder demo_notebook [] x0 (zeros [1, 1]) (zeros [1, 3, 1])
      = Inr (pred, zeros [1, 1], aw)"
    using demo_decoder by blast
  obtain l where l: "loss_function (loss_object demo_notebook) c pred = Inr l" "shape l = []"
      "el l [] = 1"
    using demo_loss_function [OF c(2), of pred] c(3) by auto
  have enc: "encoder demo_notebook [] ?inp (zeros [1, 1]) = Inr (zeros [1, 3, 1], zeros [1, 1])"
    by (simp add: demo_notebook_def)
  have acc: "accumulated_loss demo_notebook 0 ?inp ?targ (zeros [1, 1]) [] = Inr 1"
    unfolding accumulated_loss_def up using enc x0 d c(1) l
    by (simp add: and_then_def)
  have grad: "tape_gradient demo_notebook f [] = Inr []" for f
    by (simp add: demo_notebook_def)
  have app: "apply_gradients demo_notebook 0 [] = Inr (0, [])"
    by (simp add: demo_notebook_def)
  have "train_step demo_notebook demo_variables ?inp ?targ (zeros [1, 1])
      = Inr (TfScalar (1 / 2), demo_variables)"
    using train_step_accumulates [OF sh, of demo_notebook demo_variables ?inp "zeros [1, 1]"]
      acc grad [of "accumulated_loss demo_notebook 0 ?inp ?targ (zeros [1, 1])"] app
    by (simp add: demo_variables_def Let_def and_then_def)
  with sh show ?thesis by simp
qed

text \<open>
  C4 as stated fails for a target batch without time steps: no decode step runs, \<open>loss\<close> is
  still the integer 0, and dividing it by \<open>int(targ.shape[1]) = 0\<close> raises.
\<close>

theorem train_step_empty_target:
  "train_step demo_notebook demo_variables (row_tensor [1, 3, 2])
     \<lparr>shape = [1, 0], el = (\<lambda>idx. 0)\<rparr> (zeros [1, 1]) = Inl ZeroDivisionError"
  by (simp add: train_step_def taped_def demo_notebook_def demo_variables_def and_then_def
      expand_dims_def tensor_of_list_def div_int_def)

end
